theory Spec2Isabelle
  imports Complex_Main "HOL-Library.Sublist" "HOL-Library.Multiset"
begin

section \<open>Python strings\<close>

text \<open>
  A Python \<open>str\<close> is modelled as a \<open>string\<close> whose characters are the code points
  U+0000 .. U+00FF (Latin-1), which covers every literal of the transformer and of the
  extractors. Accented letters are written by code point: \<open>CHR 0xCA\<close> is E with
  circumflex, \<open>CHR 0xCD\<close> is I with acute, and so on.
\<close>

text \<open>\<open>str.isspace\<close> on the code points below U+0100.\<close>

definition is_space :: "char \<Rightarrow> bool" where
  "is_space c = (c \<in> set [CHR 0x09, CHR 0x0A, CHR 0x0B, CHR 0x0C, CHR 0x0D, CHR 0x1C,
     CHR 0x1D, CHR 0x1E, CHR 0x1F, CHR 0x20, CHR 0x85, CHR 0xA0])"

text \<open>\<open>s.strip()\<close>: leading and trailing white space removed.\<close>

definition strip :: "string \<Rightarrow> string" where
  "strip s = rev (dropWhile is_space (rev (dropWhile is_space s)))"

text \<open>
  \<open>s.upper()\<close>. The letters a..z and U+00E0 .. U+00FE (the division sign U+00F7 apart)
  move down by 32; the sharp s (U+00DF) becomes \<open>SS\<close>. The two code points whose upper
  case lies beyond U+00FF (U+00B5 and U+00FF) are outside the model and left as they are.
\<close>

definition upper_char :: "char \<Rightarrow> string" where
  "upper_char c = (let n = (of_char c :: nat) in
     if 97 \<le> n \<and> n \<le> 122 then [char_of (n - 32)]
     else if n = 223 then ''SS''
     else if n = 247 then [c]
     else if 224 \<le> n \<and> n \<le> 254 then [char_of (n - 32)]
     else [c])"

definition upper :: "string \<Rightarrow> string" where
  "upper s = concat (map upper_char s)"

text \<open>\<open>p in s\<close> for two strings: \<open>p\<close> occurs in \<open>s\<close> as a contiguous substring.\<close>

fun str_in :: "'a list \<Rightarrow> 'a list \<Rightarrow> bool" where
  "str_in p [] = (p = [])"
| "str_in p (c # cs) = (prefix p (c # cs) \<or> str_in p cs)"

text \<open>
  \<open>s.replace(old, new)\<close>: every non-overlapping occurrence of \<open>old\<close>, from the left.
  With an empty \<open>old\<close> Python puts \<open>new\<close> before every character and at the end.
\<close>

function replace :: "'a list \<Rightarrow> 'a list \<Rightarrow> 'a list \<Rightarrow> 'a list" where
  "replace old new [] = (if old = [] then new else [])"
| "replace old new (c # cs) =
     (if old = [] then new @ c # replace old new cs
      else if prefix old (c # cs) then new @ replace old new (drop (length old) (c # cs))
      else c # replace old new cs)"
  by pat_completeness auto
termination
  by (relation "measure (\<lambda>(old, new, s). length s)") (auto simp: neq_Nil_conv)

text \<open>
  \<open>unicodedata.normalize('NFKD', s).encode('ASCII', 'ignore').decode('ASCII')\<close> on one
  code point below U+0100: an ASCII character stays, a letter with a diacritic gives
  its base letter, a vulgar fraction gives its two digits (the fraction slash is not
  ASCII), a spacing diacritic and the no-break space give a space, and every other code
  point disappears.
\<close>

definition ascii_fold_char :: "char \<Rightarrow> string" where
  "ascii_fold_char c = (let n = (of_char c :: nat) in
     if n < 128 then [c]
     else if n \<in> set [160, 168, 175, 180, 184] then '' ''
     else if n \<in> set [170, 224, 225, 226, 227, 228, 229] then ''a''
     else if n = 178 then ''2''
     else if n = 179 then ''3''
     else if n = 185 then ''1''
     else if n \<in> set [186, 242, 243, 244, 245, 246] then ''o''
     else if n = 188 then ''14''
     else if n = 189 then ''12''
     else if n = 190 then ''34''
     else if 192 \<le> n \<and> n \<le> 197 then ''A''
     else if n = 199 then ''C''
     else if 200 \<le> n \<and> n \<le> 203 then ''E''
     else if 204 \<le> n \<and> n \<le> 207 then ''I''
     else if n = 209 then ''N''
     else if 210 \<le> n \<and> n \<le> 214 then ''O''
     else if 217 \<le> n \<and> n \<le> 220 then ''U''
     else if n = 221 then ''Y''
     else if n = 231 then ''c''
     else if 232 \<le> n \<and> n \<le> 235 then ''e''
     else if 236 \<le> n \<and> n \<le> 239 then ''i''
     else if n = 241 then ''n''
     else if 249 \<le> n \<and> n \<le> 252 then ''u''
     else if n = 253 then ''y''
     else if n = 255 then ''y''
     else [])"

text \<open>The local helper \<open>normalize_string\<close> of \<open>_categorize_funds\<close>.\<close>

definition normalize_string :: "string \<Rightarrow> string" where
  "normalize_string s = concat (map ascii_fold_char (upper (strip s)))"


section \<open>Fund types\<close>

text \<open>
  The fund type labels are the strings of the source: \<open>FIDC\<close>, \<open>FIC FIM\<close>,
  \<open>FICFIM CP\<close>, ..., and the sentinel \<open>Outro\<close>.
\<close>

subsection \<open>\<open>ExpenseTransformer._standardize_fund_types\<close>\<close>

text \<open>The dictionary \<open>type_mapping\<close>, in the order it is written.\<close>

definition type_mapping :: "(string \<times> string) list" where
  "type_mapping =
    [(''FIC FIM'', ''FICFIM''),
     (''FIC II'', ''FIC''),
     (''FIM CP'', ''FIM CP''),
     (''FICFIM CP'', ''FICFIM CP''),
     (''FIDC'', ''FIDC''),
     (''FICFIDC'', ''FICFIDC''),
     (''FIP'', ''FIP''),
     (''FIM'', ''FIM''),
     (''FIA'', ''FIA''),
     (''FICFIA'', ''FICFIA''),
     (''FICFIM'', ''FICFIM''),
     (''FIC'', ''FIC'')]"

text \<open>\<open>lambda x: type_mapping.get(x, x)\<close>, applied to one label.\<close>

definition standardize_fund_type :: "string \<Rightarrow> string" where
  "standardize_fund_type x = (case map_of type_mapping x of Some v \<Rightarrow> v | None \<Rightarrow> x)"

subsection \<open>\<open>ExpenseTransformer._determine_fund_type\<close>\<close>

definition suffixes_to_ignore :: "string list" where
  "suffixes_to_ignore =
    [''RL'', ''- RL'', ''RESP LIMITADA'', ''RESPONSABILIDAD LIMITADA'',
     ''RESPONSABILIDADE LIMTADA'', ''RESPONSABILIDADE LIMITADA'',
     ''NP'', ''- NP'', ''SUBORDINADA'', ''- SUBORDINADA'']"

text \<open>
  The loop over the suffixes: a suffix that occurs anywhere in the name is removed
  everywhere, and the name is stripped again.
\<close>

fun remove_suffixes :: "string list \<Rightarrow> string \<Rightarrow> string" where
  "remove_suffixes [] clean_name = clean_name"
| "remove_suffixes (sfx # rest) clean_name =
     remove_suffixes rest
       (if str_in sfx clean_name then strip (replace sfx [] clean_name)
        else clean_name)"

text \<open>
  The dictionary \<open>patterns\<close>, in the order it is written (a Python dictionary is
  iterated in insertion order).
\<close>

definition patterns :: "(string \<times> string list) list" where
  "patterns =
    [(''FIDC'',
       [''FIDC'',
        ''FUNDO DE INVESTIMENTO EM DIREITOS CREDIT'' @ [CHR 0xD3] @ ''RIOS'',
        ''FUNDO DE INVESTIMENTO EM DIREITOS'',
        ''FUNDO DE INVEST. EM DIREITOS'',
        ''FUNDO DE INVESTIMENTO EM DC'',
        ''EM DIREITOS C'']),
     (''FICFIDC'',
       [''FICFIDC'',
        ''FIC FIDC'',
        ''FUNDO DE INVESTIMENTO EM COTAS DE FUNDOS DE INVESTIMENTO EM DIREITOS'']),
     (''FIC FIM'',
       [''FIC FIM'',
        ''FC FIM'',
        ''FIC DE FIM'',
        ''FUNDO DE INVESTIMENTO EM COTAS DE FUNDO MULTIMERCADO'']),
     (''FICFIM'',
       [''FICFIM'',
        ''FIC FIM'']),
     (''FICFIM CP'',
       [''FICFIM CP'',
        ''FIC FIM CP'',
        ''FIC DE FIM CP'']),
     (''FIM'',
       [''FIM'',
        ''FUNDO DE INVESTIMENTO MULTIMERCADO'',
        ''MULTIMERCADO'']),
     (''FIC'',
       [''FIC'',
        ''FC'',
        ''FUNDO DE INVESTIMENTO EM COTAS'']),
     (''FIM CP'',
       [''FIM CP'']),
     (''FIA'',
       [''FIA'',
        ''FUNDO DE INVESTIMENTO EM A'' @ [CHR 0xC7, CHR 0xD5] @ ''ES'']),
     (''FICFIA'',
       [''FICFIA'',
        ''FIC FIA'',
        ''FUNDO DE INVESTIMENTO EM COTAS DE FUNDO DE A'' @ [CHR 0xC7, CHR 0xD5] @ ''ES''])]"

text \<open>
  The two nested loops over \<open>patterns\<close>: the first type, in table order, one of whose
  patterns occurs in the name.
\<close>

fun match_patterns :: "(string \<times> string list) list \<Rightarrow> string \<Rightarrow> string option" where
  "match_patterns [] clean_name = None"
| "match_patterns ((fund_type, type_patterns) # rest) clean_name =
     (if list_ex (\<lambda>pattern. str_in pattern clean_name) type_patterns then Some fund_type
      else match_patterns rest clean_name)"

text \<open>
  The fund name is a \<open>str\<close>; the check \<open>not fund_name\<close> is the test for the empty
  string.
\<close>

definition determine_fund_type :: "string \<Rightarrow> string" where
  "determine_fund_type fund_name0 =
     (if fund_name0 = [] then ''Outro''
      else
        let fund_name = strip (upper fund_name0);
            clean_name = remove_suffixes suffixes_to_ignore fund_name
        in case match_patterns patterns clean_name of
             Some fund_type \<Rightarrow> fund_type
           | None \<Rightarrow>
               if str_in '' EM DC'' clean_name \<or> str_in ''EM DIREITOS'' clean_name then ''FIDC''
               else if str_in ''FIDC'' clean_name then ''FIDC''
               else if str_in ''FIC FIM CP'' clean_name then ''FICFIM CP''
               else if str_in ''FIC FIM'' clean_name then ''FICFIM''
               else if str_in ''FIC'' clean_name \<and> str_in ''FIM'' clean_name then ''FICFIM''
               else if str_in ''FIM CP'' clean_name then ''FIM CP''
               else if str_in ''FIM'' clean_name then ''FIM''
               else if str_in ''FIC'' clean_name then ''FIC''
               else ''Outro'')"

text \<open>
  \<open>_determine_fic_type\<close> is declared twice in the class, with the same body; the second
  declaration is the one Python keeps.
\<close>

definition determine_fic_type :: "string \<Rightarrow> string" where
  "determine_fic_type fic_name0 =
     (if fic_name0 = [] then ''Outro''
      else
        let fic_name = strip (upper fic_name0)
        in if str_in ''FIC FIM CP'' fic_name then ''FICFIM CP''
           else if str_in ''FIC FIM'' fic_name then ''FICFIM''
           else if str_in ''FIC FIA'' fic_name then ''FICFIA''
           else if str_in ''FIC'' fic_name then ''FIC''
           else if str_in ''FIM CP'' fic_name then ''FIM CP''
           else if str_in ''FIM'' fic_name then ''FIM''
           else if str_in ''FIA'' fic_name then ''FIA''
           else ''Outro'')"


section \<open>Expense categories: \<open>get_categoria\<close> of \<open>_categorize_expenses\<close>\<close>

text \<open>The dictionary \<open>categoria_map\<close>, in the order it is written.\<close>

definition categoria_map :: "(string \<times> string list) list" where
  "categoria_map =
    [(''Taxa'', [''Taxa'', ''Tarifa'', ''TAXA'', ''TARIFA'', ''TX.'', ''TXCUSULTORIA'', ''CUSTO SELIC'']),
     (''Custo'', [''Custo'', ''CUSTO'', ''CUSTO_EMISNC'', ''COST'']),
     (''Pagamento'', [''Pagamento'', ''PAGAMENTO'', ''Pagto'', ''PGTO'']),
     (''Transfer'' @ [CHR 0xEA] @ ''ncia'',
       [''Transfer'' @ [CHR 0xEA] @ ''ncia'', ''TRANSFER'' @ [CHR 0xCA] @ ''NCIA'',
        ''DOC/TED'', ''TED'', ''DOC'', ''TRANSF'']),
     (''Opera'' @ [CHR 0xE7, CHR 0xE3] @ ''o'',
       [''Opera'' @ [CHR 0xE7, CHR 0xE3] @ ''o'', ''OPERA'' @ [CHR 0xC7, CHR 0xC3] @ ''O'',
        ''Compra'', ''Venda'', ''COMPRA'', ''VENDA'',
        ''Aquisi'' @ [CHR 0xE7, CHR 0xE3] @ ''o'', ''AQUISI'' @ [CHR 0xC7, CHR 0xC3] @ ''O'',
        ''PURCHASE'']),
     (''Resgate'', [''Resgate'', ''RESGATE'', ''REDEMPTION'']),
     (''Aplica'' @ [CHR 0xE7, CHR 0xE3] @ ''o'',
       [''Aplica'' @ [CHR 0xE7, CHR 0xE3] @ ''o'', ''APLICA'' @ [CHR 0xC7, CHR 0xC3] @ ''O'',
        ''Aplic.'']),
     (''Auditoria'', [''Auditoria'', ''AUDITORIA'', ''#AUDIT'', ''AUDIT'']),
     (''Cust'' @ [CHR 0xF3] @ ''dia'',
       [''Cust'' @ [CHR 0xF3] @ ''dia'', ''CUSTODIA'', ''CUSTODY'']),
     (''Gest'' @ [CHR 0xE3] @ ''o'',
       [''Gest'' @ [CHR 0xE3] @ ''o'', ''GEST'' @ [CHR 0xC3] @ ''O'']),
     (''Liquida'' @ [CHR 0xE7, CHR 0xE3] @ ''o'',
       [''Liquida'' @ [CHR 0xE7, CHR 0xE3] @ ''o'', ''LIQUIDA'' @ [CHR 0xC7, CHR 0xC3] @ ''O'',
        ''LIQUIDACAO'']),
     (''Outros'', [])]"

text \<open>The special phrase, with and without its accent, and the label it gives.\<close>

definition LIQUIDO_NO_DIA_accent :: string where
  "LIQUIDO_NO_DIA_accent = ''L'' @ [CHR 0xCD] @ ''QUIDO NO DIA''"

definition LIQUIDO_NO_DIA_plain :: string where
  "LIQUIDO_NO_DIA_plain = ''LIQUIDO NO DIA''"

definition Balanco_Diario :: string where
  "Balanco_Diario = ''Balan'' @ [CHR 0xE7] @ ''o Di'' @ [CHR 0xE1] @ ''rio''"

text \<open>
  The two nested loops over \<open>categoria_map\<close>: the first category, in table order, one
  of whose keywords, in upper case, occurs in the text.
\<close>

fun match_keywords :: "(string \<times> string list) list \<Rightarrow> string \<Rightarrow> string option" where
  "match_keywords [] lancamento = None"
| "match_keywords ((categoria, keywords) # rest) lancamento =
     (if list_ex (\<lambda>keyword. str_in (upper keyword) lancamento) keywords then Some categoria
      else match_keywords rest lancamento)"

text \<open>
  The argument is \<open>None\<close> for a cell that is not a string (a missing value). The
  loops over the table come first; the special phrase is tested after them.
\<close>

definition get_categoria :: "string option \<Rightarrow> string" where
  "get_categoria cell =
     (case cell of
        None \<Rightarrow> ''Outros''
      | Some lancamento0 \<Rightarrow>
          let lancamento = upper lancamento0
          in case match_keywords categoria_map lancamento of
               Some categoria \<Rightarrow> categoria
             | None \<Rightarrow>
                 if str_in LIQUIDO_NO_DIA_accent lancamento \<or> str_in LIQUIDO_NO_DIA_plain lancamento
                 then Balanco_Diario
                 else ''Outros'')"


text \<open>
  Some keyword of \<open>categoria_map\<close>, in upper case, occurs in the (upper-case) text.
\<close>

definition table_keyword_occurs :: "string \<Rightarrow> bool" where
  "table_keyword_occurs lancamento =
     list_ex
       (\<lambda>(categoria, keywords). list_ex (\<lambda>keyword. str_in (upper keyword) lancamento) keywords)
       categoria_map"


section \<open>Monetary values: the Master and BTG extractors\<close>

text \<open>
  An amount is the exact decimal value the text denotes, a rational number: Python's
  \<open>float\<close> rounds it to the nearest double, and the sign, the test against zero, the
  negation and the absolute value of the source are the same on both.

  \<open>py_float\<close> is the builtin \<open>float(s)\<close> on plain decimal literals: white space
  around, an optional sign, digits with at most one point and at least one digit;
  \<open>None\<close> stands for \<open>ValueError\<close>. Python also reads exponents, underscores between
  digits, \<open>inf\<close> and \<open>nan\<close>; those spellings are outside the model.
\<close>

definition is_digit :: "char \<Rightarrow> bool" where
  "is_digit c = (c \<in> set ''0123456789'')"

definition digits_val :: "string \<Rightarrow> nat" where
  "digits_val ds = foldl (\<lambda>n c. 10 * n + (of_char c - 48)) 0 ds"

definition py_float :: "string \<Rightarrow> rat option" where
  "py_float s0 =
     (let s = strip s0;
          negative = (case s of [] \<Rightarrow> False | c # cs \<Rightarrow> c = CHR ''-'');
          body = (case s of [] \<Rightarrow> []
                  | c # cs \<Rightarrow> if c = CHR ''-'' \<or> c = CHR ''+'' then cs else s);
          int_part = takeWhile is_digit body;
          rest = dropWhile is_digit body;
          frac_part = (case rest of [] \<Rightarrow> [] | c # cs \<Rightarrow> cs);
          point_ok = (case rest of [] \<Rightarrow> True
                      | c # cs \<Rightarrow> c = CHR ''.'' \<and> list_all is_digit cs);
          magnitude = of_nat (digits_val (int_part @ frac_part)) / 10 ^ length frac_part
      in if point_ok \<and> \<not> (int_part = [] \<and> frac_part = [])
         then Some (if negative then - magnitude else magnitude)
         else None)"

text \<open>What the logger receives.\<close>

datatype log_record = Warning string

text \<open>
  \<open>convert_monetary_value\<close> of \<open>MasterExtractor._normalize_master_data\<close>. A cell of
  the file is \<open>None\<close> when it is missing (\<open>pd.isna\<close>) and \<open>Some\<close> of its text
  otherwise. The result is the value returned and the warnings logged.
\<close>

definition convert_monetary_value :: "string option \<Rightarrow> rat \<times> log_record list" where
  "convert_monetary_value cell =
     (case cell of
        None \<Rightarrow> (0, [])
      | Some v \<Rightarrow>
          if v = [] then (0, [])
          else
            let value_str = strip v;
                is_negative = (CHR ''('' \<in> set value_str \<and> CHR '')'' \<in> set value_str);
                value_str = replace '')'' [] (replace ''('' [] value_str);
                value_str = replace '','' ''.'' (replace ''.'' [] value_str)
            in case py_float value_str of
                 Some value_float \<Rightarrow> (if is_negative then - value_float else value_float, [])
               | None \<Rightarrow>
                   (0, [Warning (''N'' @ [CHR 0xE3] @ ''o foi poss'' @ [CHR 0xED]
                          @ ''vel converter o valor '' @ [CHR 0x27] @ v @ [CHR 0x27]
                          @ '' para n'' @ [CHR 0xFA] @ ''mero'')]))"

definition Credito :: string where
  "Credito = ''Cr'' @ [CHR 0xE9] @ ''dito''"

definition Debito :: string where
  "Debito = ''D'' @ [CHR 0xE9] @ ''bito''"

text \<open>
  Lines 126 to 140 of the Master extractor on one row: the columns \<open>credito\<close> and
  \<open>debito\<close> are converted, \<open>valor\<close> starts at zero with \<open>tipo_lancamento\<close> credit, a
  non-zero credit is copied as it is, and a non-zero debit then overwrites it with its
  absolute value. The result is \<open>(valor, tipo_lancamento)\<close>.
\<close>

definition master_valor :: "string option \<Rightarrow> string option \<Rightarrow> rat \<times> string" where
  "master_valor credito debito =
     (let valor_credito = fst (convert_monetary_value credito);
          valor_debito = fst (convert_monetary_value debito);
          valor = 0;
          tipo_lancamento = Credito;
          valor = (if valor_credito = 0 then valor else valor_credito)
      in if valor_debito = 0 then (valor, tipo_lancamento)
         else (\<bar>valor_debito\<bar>, Debito))"

text \<open>
  Lines 121 to 125 of the BTG extractor on one row, whose \<open>valor\<close> is already numeric:
  \<open>None\<close> is the \<open>NaN\<close> that \<open>pd.to_numeric(errors='coerce')\<close> leaves for a text
  that is not a number. A comparison with \<open>NaN\<close> is false.
\<close>

definition btg_valor :: "rat option \<Rightarrow> rat option \<times> string" where
  "btg_valor valor =
     (let tipo_lancamento = (case valor of None \<Rightarrow> Debito
                             | Some v \<Rightarrow> if v \<ge> 0 then Credito else Debito)
      in (map_option abs valor, tipo_lancamento))"


section \<open>The DataFrame of the transformer\<close>

text \<open>
  A row carries its index label and the three columns the fund steps read or write;
  every other column (date, entry text, amount, ...) lives in the extension part of the
  record, which no fund step touches. A DataFrame is the list of its rows, in order.
  Fund names are strings.
\<close>

record row =
  label :: nat
  nome_fundo :: string
  TpFundo :: string
  nmcategorizado :: string

type_synonym 'a dataframe = "'a row_scheme list"

text \<open>
  \<open>df.loc[labels, column] = value\<close>: the assignment reaches every row whose index
  label is among \<open>labels\<close>.
\<close>

definition loc_set ::
  "nat list \<Rightarrow> ('a row_scheme \<Rightarrow> 'a row_scheme) \<Rightarrow> 'a dataframe \<Rightarrow> 'a dataframe" where
  "loc_set labels f df = map (\<lambda>r. if label r \<in> set labels then f r else r) df"


section \<open>Redistribution: \<open>ExpenseTransformer._categorize_funds\<close>\<close>

text \<open>
  Python's module \<open>random\<close> is not part of the repository; it is a parameter of the
  model. Its state is global: \<open>random.seed(n)\<close> replaces the state by one that depends
  on \<open>n\<close> alone, and \<open>random.shuffle(xs)\<close> reorders \<open>xs\<close> and moves the state on.
\<close>

record 'g random_module =
  seed :: "int \<Rightarrow> 'g"
  shuffle :: "'g \<Rightarrow> nat list \<Rightarrow> nat list \<times> 'g"

text \<open>What the library promises of \<open>shuffle\<close>: the result is a permutation.\<close>

definition shuffle_permutes :: "'g random_module \<Rightarrow> bool" where
  "shuffle_permutes R = (\<forall>g xs. mset (fst (shuffle R g xs)) = mset xs)"

text \<open>The mask \<open>fidc_mask\<close>: the bidirectional substring test on normalised names.\<close>

definition fidc_mask :: "string \<Rightarrow> 'a row_scheme \<Rightarrow> bool" where
  "fidc_mask fidc_name r =
     (str_in (normalize_string fidc_name) (normalize_string (nome_fundo r))
      \<or> str_in (normalize_string (nome_fundo r)) (normalize_string fidc_name))"

text \<open>
  The two assignments at the end of the loop body: the rows labelled in
  \<open>fic_indices\<close> get the child's name and the child's type.
\<close>

definition assign_fic :: "string \<Rightarrow> nat list \<Rightarrow> 'a dataframe \<Rightarrow> 'a dataframe" where
  "assign_fic fic fic_indices df =
     loc_set fic_indices
       (\<lambda>r. r\<lparr>nmcategorizado := fic, TpFundo := determine_fic_type fic\<rparr>) df"

text \<open>
  The loop \<open>for i, fic in enumerate(fics_list)\<close>, from position \<open>i\<close> on: it stops
  (\<open>break\<close>) when the start of the slice is beyond the indices to distribute, and
  skips (\<open>continue\<close>) an empty slice.
\<close>

fun distribute_fics ::
  "nat \<Rightarrow> nat list \<Rightarrow> nat \<Rightarrow> string list \<Rightarrow> 'a dataframe \<Rightarrow> 'a dataframe" where
  "distribute_fics rows_per_fic distribute_indices i [] df = df"
| "distribute_fics rows_per_fic distribute_indices i (fic # fics) df =
     (let start_idx = i * rows_per_fic;
          end_idx = min ((i + 1) * rows_per_fic) (length distribute_indices)
      in if start_idx \<ge> length distribute_indices then df
         else
           let fic_indices = take (end_idx - start_idx) (drop start_idx distribute_indices)
           in if fic_indices = [] then
                distribute_fics rows_per_fic distribute_indices (i + 1) fics df
              else
                distribute_fics rows_per_fic distribute_indices (i + 1) fics
                  (assign_fic fic fic_indices df))"

text \<open>
  \<open>int(total_rows * 0.5)\<close> is \<open>total_rows div 2\<close>. The difference
  \<open>total_rows - keep_original_count\<close> is never negative, since this point is reached
  with at least one row.
\<close>

definition keep_original_count :: "nat \<Rightarrow> nat" where
  "keep_original_count total_rows = max (total_rows div 2) 1"

text \<open>
  The body of the loop over \<open>fidc_to_fics.items()\<close> for one parent: the state is the
  DataFrame and the state of the random generator.
\<close>

definition categorize_parent ::
  "'g random_module \<Rightarrow> string \<Rightarrow> string list \<Rightarrow> 'a dataframe \<times> 'g \<Rightarrow> 'a dataframe \<times> 'g" where
  "categorize_parent R fidc_name fics_list st =
     (let df = fst st; g = snd st
      in case fics_list of
           [] \<Rightarrow> (df, g)
         | fic0 # _ \<Rightarrow>
             if fic0 = ''-'' then (df, g)
             else
               let fidc_rows = filter (fidc_mask fidc_name) df
               in if length fidc_rows = 0 then (df, g)
                  else
                    let total_rows = length fidc_rows;
                        num_fics = length fics_list;
                        rows_to_distribute = total_rows - keep_original_count total_rows
                    in if rows_to_distribute \<le> 0 then (df, g)
                       else
                         let rows_per_fic = max 1 (rows_to_distribute div num_fics);
                             fidc_indices = map label fidc_rows;
                             shuffled = shuffle R (seed R 42) fidc_indices;
                             keep_indices = take (keep_original_count total_rows) (fst shuffled);
                             distribute_indices = drop (keep_original_count total_rows) (fst shuffled)
                         in (distribute_fics rows_per_fic distribute_indices 0 fics_list df,
                             snd shuffled))"

text \<open>
  The whole method: \<open>nmcategorizado\<close> starts as \<open>nome_fundo\<close>, then the parents are
  processed in the order of the mapping.
\<close>

definition categorize_funds ::
  "'g random_module \<Rightarrow> 'g \<Rightarrow> (string \<times> string list) list \<Rightarrow> 'a dataframe \<Rightarrow> 'a dataframe \<times> 'g" where
  "categorize_funds R g fidc_to_fics df =
     foldl (\<lambda>st (fidc_name, fics_list). categorize_parent R fidc_name fics_list st)
       (map (\<lambda>r. r\<lparr>nmcategorizado := nome_fundo r\<rparr>) df, g) fidc_to_fics"

text \<open>
  The slices the loop of \<open>distribute_fics\<close> hands out, child by child: the same
  index arithmetic, collected instead of applied.
\<close>

fun fic_slices :: "nat \<Rightarrow> nat list \<Rightarrow> nat \<Rightarrow> string list \<Rightarrow> (string \<times> nat list) list" where
  "fic_slices rows_per_fic distribute_indices i [] = []"
| "fic_slices rows_per_fic distribute_indices i (fic # fics) =
     (let start_idx = i * rows_per_fic;
          end_idx = min ((i + 1) * rows_per_fic) (length distribute_indices)
      in if start_idx \<ge> length distribute_indices then []
         else
           let fic_indices = take (end_idx - start_idx) (drop start_idx distribute_indices)
           in if fic_indices = [] then fic_slices rows_per_fic distribute_indices (i + 1) fics
              else (fic, fic_indices) # fic_slices rows_per_fic distribute_indices (i + 1) fics)"

text \<open>
  The slices one parent hands to its children on a DataFrame, with the guards of
  \<open>categorize_parent\<close>: none when the parent is skipped.
\<close>

definition parent_slices ::
  "'g random_module \<Rightarrow> string \<Rightarrow> string list \<Rightarrow> 'a dataframe \<Rightarrow> (string \<times> nat list) list" where
  "parent_slices R fidc_name fics_list df =
     (let fidc_rows = filter (fidc_mask fidc_name) df;
          total_rows = length fidc_rows;
          rows_to_distribute = total_rows - keep_original_count total_rows;
          rows_per_fic = max 1 (rows_to_distribute div length fics_list);
          shuffled = fst (shuffle R (seed R 42) (map label fidc_rows))
      in if fics_list = [] then []
         else if hd fics_list = ''-'' then []
         else if total_rows = 0 then []
         else if rows_to_distribute \<le> 0 then []
         else fic_slices rows_per_fic (drop (keep_original_count total_rows) shuffled) 0 fics_list)"


text \<open>
  The loop of \<open>distribute_fics\<close> as one fold: the slices are applied in order, each
  by \<open>assign_fic\<close>.
\<close>

definition apply_slices :: "'a dataframe \<Rightarrow> (string \<times> nat list) list \<Rightarrow> 'a dataframe" where
  "apply_slices df slices = foldl (\<lambda>df (fic, fic_indices). assign_fic fic fic_indices df) df slices"

text \<open>
  The rows a parent keeps, given the slices it hands out: the rows its mask selects
  whose label is in no slice. The rows of one slice: the rows whose label the slice names.
\<close>

definition retained_rows ::
  "string \<Rightarrow> (string \<times> nat list) list \<Rightarrow> 'a dataframe \<Rightarrow> 'a dataframe" where
  "retained_rows fidc_name slices df =
     filter (\<lambda>r. fidc_mask fidc_name r \<and> label r \<notin> set (concat (map snd slices))) df"

definition assigned_rows :: "nat list \<Rightarrow> 'a dataframe \<Rightarrow> 'a dataframe" where
  "assigned_rows fic_indices df = filter (\<lambda>r. label r \<in> set fic_indices) df"

text \<open>
  The same assignments seen from one row: \<open>assign_row\<close> is what \<open>assign_fic\<close> does to
  a row, \<open>slices_row\<close> what a list of slices does to it, one slice after the other.
  \<open>engine_slices\<close> collects the slices of all the parents of the mapping, in the order of
  the loop of \<open>categorize_funds\<close>, each parent's slices computed on the same DataFrame.
\<close>

definition assign_row :: "string \<Rightarrow> nat list \<Rightarrow> 'a row_scheme \<Rightarrow> 'a row_scheme" where
  "assign_row fic fic_indices r =
     (if label r \<in> set fic_indices
      then r\<lparr>nmcategorizado := fic, TpFundo := determine_fic_type fic\<rparr> else r)"

definition slices_row :: "(string \<times> nat list) list \<Rightarrow> 'a row_scheme \<Rightarrow> 'a row_scheme" where
  "slices_row slices r = foldl (\<lambda>r (fic, fic_indices). assign_row fic fic_indices r) r slices"

definition engine_slices ::
  "'g random_module \<Rightarrow> (string \<times> string list) list \<Rightarrow> 'a dataframe \<Rightarrow> (string \<times> nat list) list" where
  "engine_slices R fidc_to_fics df =
     concat (map (\<lambda>(fidc_name, fics_list). parent_slices R fidc_name fics_list df) fidc_to_fics)"


section \<open>Manual fund types: \<open>ExpenseTransformer._apply_manual_fund_type_mapping\<close>\<close>

text \<open>The dictionary \<open>manual_mapping\<close>, in the order it is written.\<close>

definition manual_mapping :: "(string \<times> string) list" where
  "manual_mapping =
    [(''ALBAREDO FIDC'', ''FIDC''),
     (''Z INVEST FIDC'', ''FIDC''),
     (''SC FUNDO DE INVESTIMENTO EM DC'', ''FIDC''),
     (''PRIME AGRO FIDC'', ''FIDC''),
     (''GRUPO PRIME AGRO FIC'', ''FICFIM''),
     (''GLOBAL FUTURA FIDC'', ''FIDC''),
     (''BAS'' @ [CHR 0xC3], ''FIDC''),
     (''BLUE ROCKET FIDC'', ''FIDC''),
     (''VISHNU FUNDO'', ''FIDC''),
     (''AF6 FIDC'', ''FIDC''),
     (''BELL FUNDO'', ''FIDC''),
     (''VERGINIA FUNDO'', ''FIDC''),
     (''BONTEMPO FIDC'', ''FIDC''),
     (''PINPAG FIDC'', ''FIDC''),
     (''BELLIN FIC'', ''FICFIM''),
     (''NINE CAPITAL FIDC'', ''FIDC''),
     (''NINE CAPITAL FIC'', ''FIC''),
     (''MASTRENN FIDC'', ''FIDC''),
     (''MASTRENN FIC'', ''FICFIM CP''),
     (''UKF FIDC'', ''FIDC''),
     (''UKF FIC'', ''FIC''),
     (''NR11 FUNDO'', ''FIDC''),
     (''SMT AGRO HOLDING'', ''FICFIM''),
     (''SMT AGRO FUNDO'', ''FIDC''),
     (''TERTON FUNDO'', ''FIDC''),
     (''ZAB LEGACY FIDC'', ''FIDC''),
     (''SCI SAO CR FC FIM CP'', ''FICFIM CP''),
     (''ARTANIS FUNDO DE INVESTIMENTO MULTIMERCA'', ''FIM''),
     (''GOLIATH FUNDO DE INVESTIMENTO MULTIMERCA'', ''FIM''),
     (''AGROCETE FUNDO DE INVESTIMENTO EM DIREIT'', ''FIDC''),
     (''CREDILOG II - FUNDO DE INVESTIMENTO EM D'', ''FIDC''),
     (''CREDILOG - FUNDO DE INVESTIMENTO EM DIRE'', ''FIDC''),
     (''PINPAG  FIDC - RL'', ''FIDC''),
     (''CAPITALIZA FUNDO DE INVESTIMENTO EM DIRE'', ''FIDC''),
     (''FUTURO CAPITAL FUNDO DE INVESTIMENTO EM'', ''FIDC''),
     (''VELSO - FUNDO DE INVESTIMENTO EM DIREITO'', ''FIDC''),
     (''ANVERES FUNDO DE INVESTIMENTO EM DIREITO'', ''FIDC'')]"

text \<open>
  The inner loop over \<open>manual_mapping.items()\<close> with its \<open>break\<close>: the type of the
  first key that occurs in the upper-case fund name.
\<close>

definition manual_lookup :: "string \<Rightarrow> string option" where
  "manual_lookup fund_name =
     map_option snd (find (\<lambda>(key, fund_type). str_in key fund_name) manual_mapping)"

text \<open>One round of the outer loop, for the row \<open>row\<close> of \<open>df[outros_mask]\<close>.\<close>

definition manual_step :: "'a dataframe \<Rightarrow> 'a row_scheme \<Rightarrow> 'a dataframe" where
  "manual_step df row =
     (case manual_lookup (upper (nome_fundo row)) of
        Some fund_type \<Rightarrow> loc_set [label row] (\<lambda>r. r\<lparr>TpFundo := fund_type\<rparr>) df
      | None \<Rightarrow> df)"

text \<open>
  The method: the rows whose type is \<open>Outro\<close> are selected once, before the loop, and
  visited in order.
\<close>

definition apply_manual_fund_type_mapping :: "'a dataframe \<Rightarrow> 'a dataframe" where
  "apply_manual_fund_type_mapping df =
     foldl manual_step df (filter (\<lambda>r. TpFundo r = ''Outro'') df)"


section \<open>The fund steps of \<open>ExpenseTransformer.transform\<close>\<close>

definition standardize_fund_types :: "'a dataframe \<Rightarrow> 'a dataframe" where
  "standardize_fund_types df = map (\<lambda>r. r\<lparr>TpFundo := standardize_fund_type (TpFundo r)\<rparr>) df"

text \<open>
  The steps of \<open>transform\<close> that read or write the fund columns, in its order: the
  automatic type, the redistribution, the manual types, the standardisation. The other
  steps of \<open>transform\<close> work on the entry text and the date.
\<close>

definition transform_funds ::
  "'g random_module \<Rightarrow> 'g \<Rightarrow> (string \<times> string list) list \<Rightarrow> 'a dataframe \<Rightarrow> 'a dataframe \<times> 'g" where
  "transform_funds R g fidc_to_fics df =
     (let df1 = map (\<lambda>r. r\<lparr>TpFundo := determine_fund_type (nome_fundo r)\<rparr>) df;
          st = categorize_funds R g fidc_to_fics df1;
          df3 = apply_manual_fund_type_mapping (fst st);
          df4 = standardize_fund_types df3
      in (df4, snd st))"


section \<open>Fund types: standardisation and specificity\<close>

lemma standardize_fixes_values:
  "v \<in> snd ` set type_mapping \<Longrightarrow> standardize_fund_type v = v"
  by (auto simp: type_mapping_def standardize_fund_type_def)

lemma standardize_twice:
  "standardize_fund_type (standardize_fund_type x) = standardize_fund_type x"
proof (cases "map_of type_mapping x")
  case None
  then show ?thesis by (simp add: standardize_fund_type_def)
next
  case (Some v)
  then have "v \<in> snd ` set type_mapping"
    by (metis map_of_SomeD snd_conv image_eqI)
  then have "standardize_fund_type v = v" by (rule standardize_fixes_values)
  with Some show ?thesis by (simp add: standardize_fund_type_def)
qed

text \<open>
  Claim C9. The standardisation of fund types is idempotent: for every label \<open>x\<close>,
  mapping it twice gives what mapping it once gives, and so the pass over a whole
  DataFrame, applied twice, gives what it gives applied once.
\<close>

theorem standardize_fund_types_idempotent:
  "standardize_fund_type (standardize_fund_type x) = standardize_fund_type x
   \<and> standardize_fund_types (standardize_fund_types df) = standardize_fund_types df"
  by (simp add: standardize_fund_types_def standardize_twice)

text \<open>
  Claim C5. The claim asks for the type \<open>FICFIM CP\<close> on the name
  \<open>SCI SAO CR FC FIM CP\<close>. The first pattern of the table \<open>patterns\<close> that occurs in
  the name is \<open>FC FIM\<close>, of the entry \<open>FIC FIM\<close>, and no pattern of the entry
  \<open>FICFIM CP\<close> occurs in it; so the classifier answers \<open>FIC FIM\<close>, which the
  standardisation turns into \<open>FICFIM\<close>. The manual table, which holds this very name
  with the type \<open>FICFIM CP\<close>, is consulted for rows of type \<open>Outro\<close> only.
\<close>

theorem sci_sao_classified_ficfim:
  "determine_fund_type ''SCI SAO CR FC FIM CP'' = ''FIC FIM''
   \<and> standardize_fund_type (determine_fund_type ''SCI SAO CR FC FIM CP'') = ''FICFIM''
   \<and> map_of manual_mapping ''SCI SAO CR FC FIM CP'' = Some ''FICFIM CP''"
  by code_simp


section \<open>Monetary values\<close>

lemma strip_paren: "strip ''(1.234,56)'' = ''(1.234,56)''"
  by code_simp

lemma clean_paren:
  "replace '','' ''.'' (replace ''.'' [] (replace '')'' [] (replace ''('' [] ''(1.234,56)'')))
     = ''1234.56''"
  by code_simp

lemma strip_plain: "strip ''1234,56'' = ''1234,56''"
  by code_simp

lemma clean_plain:
  "replace '','' ''.'' (replace ''.'' [] (replace '')'' [] (replace ''('' [] ''1234,56'')))
     = ''1234.56''"
  by code_simp

lemma strip_abc: "strip ''abc'' = ''abc''"
  by code_simp

lemma clean_abc:
  "replace '','' ''.'' (replace ''.'' [] (replace '')'' [] (replace ''('' [] ''abc''))) = ''abc''"
  by code_simp

lemma strip_float: "strip ''1234.56'' = ''1234.56''"
  by code_simp

lemma py_float_1234_56: "py_float ''1234.56'' = Some 1234.56"
  by (simp add: py_float_def strip_float is_digit_def digits_val_def)

lemma py_float_abc: "py_float ''abc'' = None"
  by (simp add: py_float_def strip_abc is_digit_def digits_val_def)

lemma convert_paren: "convert_monetary_value (Some ''(1.234,56)'') = (- 1234.56, [])"
  by (simp add: convert_monetary_value_def Let_def strip_paren clean_paren py_float_1234_56)

lemma convert_plain: "convert_monetary_value (Some ''1234,56'') = (1234.56, [])"
  by (simp add: convert_monetary_value_def Let_def strip_plain clean_plain py_float_1234_56)

lemma convert_abc:
  "convert_monetary_value (Some ''abc'') =
     (0, [Warning (''N'' @ [CHR 0xE3] @ ''o foi poss'' @ [CHR 0xED]
            @ ''vel converter o valor '' @ [CHR 0x27] @ ''abc'' @ [CHR 0x27]
            @ '' para n'' @ [CHR 0xFA] @ ''mero'')])"
  by (simp add: convert_monetary_value_def Let_def strip_abc clean_abc py_float_abc)

lemma convert_empty:
  "convert_monetary_value (Some []) = (0, [])"
  "convert_monetary_value None = (0, [])"
  by (simp_all add: convert_monetary_value_def)

text \<open>
  Claim C7. The monetary parser gives \<open>-1234.56\<close> on \<open>(1.234,56)\<close>, \<open>1234.56\<close> on
  \<open>1234,56\<close> and \<open>0\<close> on the empty text, all without a warning; on \<open>abc\<close> it returns
  \<open>0\<close> and logs one warning, which quotes the text, instead of raising.
\<close>

theorem convert_monetary_value_examples:
  "convert_monetary_value (Some ''(1.234,56)'') = (- 1234.56, [])
   \<and> convert_monetary_value (Some ''1234,56'') = (1234.56, [])
   \<and> convert_monetary_value (Some []) = (0, [])
   \<and> convert_monetary_value (Some ''abc'') =
       (0, [Warning (''N'' @ [CHR 0xE3] @ ''o foi poss'' @ [CHR 0xED]
              @ ''vel converter o valor '' @ [CHR 0x27] @ ''abc'' @ [CHR 0x27]
              @ '' para n'' @ [CHR 0xFA] @ ''mero'')])"
  using convert_paren convert_plain convert_empty(1) convert_abc by blast

text \<open>
  The BTG extractor takes the absolute value of every amount, and so do the Daycoval
  and Singulare extractors (\<open>df['valor'] = df['valor'].abs()\<close>).
\<close>

lemma btg_valor_nonneg: "fst (btg_valor valor) = Some v \<Longrightarrow> 0 \<le> v"
  by (cases valor) (auto simp: btg_valor_def)

text \<open>
  In the Master extractor a non-zero debit wins, with its absolute value; without one
  the credit is the amount, with the sign it has.
\<close>

lemma master_valor_debit_wins:
  "fst (convert_monetary_value debito) \<noteq> 0 \<Longrightarrow>
   master_valor credito debito = (\<bar>fst (convert_monetary_value debito)\<bar>, Debito)"
  by (simp add: master_valor_def)

lemma master_valor_credit_as_is:
  "fst (convert_monetary_value debito) = 0 \<Longrightarrow>
   master_valor credito debito = (fst (convert_monetary_value credito), Credito)"
  by (simp add: master_valor_def)

text \<open>
  Claim C4. The claim asks for a non-negative amount on every record. The Master
  extractor copies a non-zero credit as it is and takes the absolute value of the debit
  only: a credit written in parentheses, with no debit, gives a negative amount of kind
  credit.
\<close>

theorem master_valor_negative_credit:
  "master_valor (Some ''(1.234,56)'') (Some []) = (- 1234.56, Credito)
   \<and> fst (master_valor (Some ''(1.234,56)'') (Some [])) < 0"
  by (simp add: master_valor_def convert_paren convert_empty)


section \<open>Expense categories\<close>

lemma match_keywords_None:
  "match_keywords m l = None \<longleftrightarrow>
     \<not> list_ex (\<lambda>(categoria, keywords). list_ex (\<lambda>keyword. str_in (upper keyword) l) keywords) m"
  by (induction m l rule: match_keywords.induct) auto

lemma match_keywords_Some: "match_keywords m l = Some c \<Longrightarrow> c \<in> fst ` set m"
  by (induction m l rule: match_keywords.induct) (auto split: if_splits)

lemma Balanco_Diario_not_in_table: "Balanco_Diario \<notin> fst ` set categoria_map"
  by code_simp

text \<open>
  Claim C8, as the code has it. The special phrase is tested after the keyword table,
  not ahead of it: for a text whose upper-case form contains the phrase, with or without
  its accent, the category is \<open>Balanco Diario\<close> exactly when no keyword of the
  table occurs in the upper-case text; when one occurs, the table decides.
\<close>

theorem liquido_no_dia_after_table:
  assumes "str_in LIQUIDO_NO_DIA_accent (upper l) \<or> str_in LIQUIDO_NO_DIA_plain (upper l)"
  shows "get_categoria (Some l) = Balanco_Diario \<longleftrightarrow> \<not> table_keyword_occurs (upper l)"
proof (cases "match_keywords categoria_map (upper l)")
  case None
  then have "\<not> table_keyword_occurs (upper l)"
    by (simp add: match_keywords_None table_keyword_occurs_def)
  moreover from None assms have "get_categoria (Some l) = Balanco_Diario"
    by (simp add: get_categoria_def)
  ultimately show ?thesis by simp
next
  case (Some c)
  then have "table_keyword_occurs (upper l)"
    using match_keywords_None [of categoria_map "upper l"]
    by (simp add: table_keyword_occurs_def)
  moreover from Some have "c \<noteq> Balanco_Diario"
    using match_keywords_Some Balanco_Diario_not_in_table by metis
  with Some have "get_categoria (Some l) \<noteq> Balanco_Diario"
    by (simp add: get_categoria_def)
  ultimately show ?thesis by simp
qed

text \<open>The text \<open>Saldo liquido no dia\<close> holds the phrase and no keyword of the table.\<close>

theorem liquido_no_dia_after_table_witness:
  "(str_in LIQUIDO_NO_DIA_accent (upper (''Saldo l'' @ [CHR 0xED] @ ''quido no dia''))
      \<or> str_in LIQUIDO_NO_DIA_plain (upper (''Saldo l'' @ [CHR 0xED] @ ''quido no dia'')))
   \<and> \<not> table_keyword_occurs (upper (''Saldo l'' @ [CHR 0xED] @ ''quido no dia''))
   \<and> get_categoria (Some (''Saldo l'' @ [CHR 0xED] @ ''quido no dia'')) = Balanco_Diario"
proof -
  let ?l = "''Saldo l'' @ [CHR 0xED] @ ''quido no dia''"
  have h: "str_in LIQUIDO_NO_DIA_accent (upper ?l) \<or> str_in LIQUIDO_NO_DIA_plain (upper ?l)"
    by code_simp
  have nk: "\<not> table_keyword_occurs (upper ?l)"
    by code_simp
  from liquido_no_dia_after_table [OF h] nk
  have "get_categoria (Some ?l) = Balanco_Diario" by simp
  with h nk show ?thesis by simp
qed

text \<open>
  The text \<open>Resgate liquido no dia\<close> holds the phrase and the keyword \<open>RESGATE\<close>:
  its category is \<open>Resgate\<close>.
\<close>

theorem resgate_liquido_no_dia_counterexample:
  "str_in LIQUIDO_NO_DIA_accent (upper (''Resgate l'' @ [CHR 0xED] @ ''quido no dia''))
   \<and> get_categoria (Some (''Resgate l'' @ [CHR 0xED] @ ''quido no dia'')) = ''Resgate''
   \<and> get_categoria (Some (''Resgate l'' @ [CHR 0xED] @ ''quido no dia'')) \<noteq> Balanco_Diario"
  by code_simp


section \<open>Assignments by label\<close>

lemma loc_set_length: "length (loc_set ls f df) = length df"
  by (simp add: loc_set_def)

lemma loc_set_nth_other:
  "i < length df \<Longrightarrow> label (df ! i) \<notin> set ls \<Longrightarrow> loc_set ls f df ! i = df ! i"
  by (simp add: loc_set_def)

lemma loc_set_nth_in:
  "i < length df \<Longrightarrow> label (df ! i) \<in> set ls \<Longrightarrow> loc_set ls f df ! i = f (df ! i)"
  by (simp add: loc_set_def)

lemma loc_set_labels:
  "(\<And>r. label (f r) = label r) \<Longrightarrow> map label (loc_set ls f df) = map label df"
  by (simp add: loc_set_def)

lemma loc_set_nome_fundo:
  "(\<And>r. nome_fundo (f r) = nome_fundo r) \<Longrightarrow>
   map nome_fundo (loc_set ls f df) = map nome_fundo df"
  by (simp add: loc_set_def)

lemma nth_label:
  "i < length df \<Longrightarrow> map label df' = map label df \<Longrightarrow> label (df' ! i) = label (df ! i)"
  by (metis length_map nth_map)


section \<open>The manual mapping leaves typed rows alone\<close>

lemma manual_step_labels: "map label (manual_step df row) = map label df"
  by (simp add: manual_step_def loc_set_labels split: option.splits)

lemma manual_step_nth:
  "i < length df \<Longrightarrow> label (df ! i) \<noteq> label row \<Longrightarrow> manual_step df row ! i = df ! i"
  by (simp add: manual_step_def loc_set_nth_other split: option.splits)

lemma foldl_manual_step_nth:
  "i < length df \<Longrightarrow> list_all (\<lambda>row. label row \<noteq> label (df ! i)) rows \<Longrightarrow>
   foldl manual_step df rows ! i = df ! i \<and> map label (foldl manual_step df rows) = map label df"
proof (induction rows arbitrary: df)
  case Nil
  then show ?case by simp
next
  case (Cons row rows)
  let ?df = "manual_step df row"
  have len: "length ?df = length df"
    using manual_step_labels [of df row] by (metis length_map)
  have same: "?df ! i = df ! i"
    using Cons.prems by (simp add: manual_step_nth)
  have "foldl manual_step ?df rows ! i = ?df ! i
        \<and> map label (foldl manual_step ?df rows) = map label ?df"
    using Cons.prems len same by (intro Cons.IH) auto
  then show ?case by (simp add: same manual_step_labels)
qed

text \<open>
  Claim C10. On a DataFrame whose index labels are distinct (what \<open>read_csv\<close>,
  \<open>drop_duplicates\<close> and \<open>concat(ignore_index=True)\<close> produce), the manual mapping
  leaves every row whose type is not \<open>Outro\<close> exactly as it was, in all its columns and
  whatever its fund name, and keeps the number of rows.
\<close>

theorem manual_mapping_touches_outro_only:
  assumes "distinct (map label df)" and "i < length df" and "TpFundo (df ! i) \<noteq> ''Outro''"
  shows "apply_manual_fund_type_mapping df ! i = df ! i
         \<and> length (apply_manual_fund_type_mapping df) = length df"
proof -
  let ?outros = "filter (\<lambda>r. TpFundo r = ''Outro'') df"
  have "label row \<noteq> label (df ! i)" if "row \<in> set ?outros" for row
  proof
    assume eq: "label row = label (df ! i)"
    from that have "row \<in> set df" and outro: "TpFundo row = ''Outro''" by auto
    moreover have "df ! i \<in> set df" using assms(2) by simp
    moreover have "inj_on label (set df)" using assms(1) by (simp add: distinct_map)
    ultimately have "row = df ! i" using eq by (auto dest: inj_onD)
    with outro assms(3) show False by simp
  qed
  then have "list_all (\<lambda>row. label row \<noteq> label (df ! i)) ?outros"
    by (simp add: list_all_iff)
  from foldl_manual_step_nth [OF assms(2) this]
  show ?thesis
    unfolding apply_manual_fund_type_mapping_def by (metis length_map)
qed


text \<open>
  A row typed \<open>FIC FIM\<close> whose name is a key of the manual table, beside a row typed
  \<open>Outro\<close>: the first is left as it is.
\<close>

theorem manual_mapping_touches_outro_only_witness:
  "(let df = [\<lparr>label = 0, nome_fundo = ''SCI SAO CR FC FIM CP'', TpFundo = ''FIC FIM'',
               nmcategorizado = ''SCI SAO CR FC FIM CP''\<rparr>,
             \<lparr>label = 1, nome_fundo = ''Vishnu Fundo'', TpFundo = ''Outro'',
               nmcategorizado = ''Vishnu Fundo''\<rparr>]
    in distinct (map label df) \<and> TpFundo (df ! 0) \<noteq> ''Outro''
       \<and> manual_lookup (upper (nome_fundo (df ! 0))) = Some ''FICFIM CP''
       \<and> apply_manual_fund_type_mapping df ! 0 = df ! 0
       \<and> length (apply_manual_fund_type_mapping df) = length df)"
proof -
  let ?df = "[\<lparr>label = 0, nome_fundo = ''SCI SAO CR FC FIM CP'', TpFundo = ''FIC FIM'',
               nmcategorizado = ''SCI SAO CR FC FIM CP''\<rparr>,
             \<lparr>label = 1, nome_fundo = ''Vishnu Fundo'', TpFundo = ''Outro'',
               nmcategorizado = ''Vishnu Fundo''\<rparr>]"
  have d: "distinct (map label ?df)" by simp
  have i: "0 < length ?df" by simp
  have t: "TpFundo (?df ! 0) \<noteq> ''Outro''" by simp
  have k: "manual_lookup (upper (nome_fundo (?df ! 0))) = Some ''FICFIM CP''" by code_simp
  from manual_mapping_touches_outro_only [OF d i t] d t k
  show ?thesis unfolding Let_def by blast
qed

text \<open>The row typed \<open>Outro\<close> of the same DataFrame does get its manual type.\<close>

lemma outro_row_is_mapped:
  "TpFundo (apply_manual_fund_type_mapping
      [\<lparr>label = 0, nome_fundo = ''SCI SAO CR FC FIM CP'', TpFundo = ''FIC FIM'',
         nmcategorizado = ''SCI SAO CR FC FIM CP''\<rparr>,
       \<lparr>label = 1, nome_fundo = ''Vishnu Fundo'', TpFundo = ''Outro'',
         nmcategorizado = ''Vishnu Fundo''\<rparr>] ! 1) = ''FIDC''"
  by code_simp


section \<open>The redistribution does not depend on the state of the generator\<close>

lemma categorize_parent_state_free:
  "fst (categorize_parent R fidc_name fics_list (df, g))
     = fst (categorize_parent R fidc_name fics_list (df, g'))"
  by (simp add: categorize_parent_def Let_def split: list.splits)

lemma categorize_parent_fst:
  "fst st = fst st' \<Longrightarrow>
   fst (categorize_parent R fidc_name fics_list st)
     = fst (categorize_parent R fidc_name fics_list st')"
  using categorize_parent_state_free [of R fidc_name fics_list "fst st" "snd st" "snd st'"]
  by (metis prod.collapse)

lemma foldl_categorize_parent_fst:
  "fst st = fst st' \<Longrightarrow>
   fst (foldl (\<lambda>st (fidc_name, fics_list). categorize_parent R fidc_name fics_list st) st m)
     = fst (foldl (\<lambda>st (fidc_name, fics_list). categorize_parent R fidc_name fics_list st) st' m)"
proof (induction m arbitrary: st st')
  case Nil
  then show ?case by simp
next
  case (Cons p m)
  obtain n fl where p: "p = (n, fl)" by (cases p)
  show ?case
    unfolding p foldl_Cons prod.case
    by (rule Cons.IH) (rule categorize_parent_fst [OF Cons.prems])
qed

lemma categorize_funds_state_free:
  "fst (categorize_funds R g m df) = fst (categorize_funds R g' m df)"
  unfolding categorize_funds_def by (rule foldl_categorize_parent_fst) simp

text \<open>
  Claim C3. The redistribution is deterministic: the generator is seeded with the
  constant 42 before every shuffle, so the DataFrame that comes out is the same whatever
  state the generator is in when the engine starts. In particular a second run on the
  same rows and the same mapping, started in the state the first run left behind, gives
  the DataFrame of the first run; and so do the fund steps of \<open>transform\<close> as a whole.
\<close>

theorem redistribution_deterministic:
  "fst (categorize_funds R g m df) = fst (categorize_funds R g' m df)
   \<and> fst (categorize_funds R (snd (categorize_funds R g m df)) m df)
       = fst (categorize_funds R g m df)
   \<and> fst (transform_funds R g m df) = fst (transform_funds R g' m df)"
  using categorize_funds_state_free [of R g m df g']
    categorize_funds_state_free [of R "snd (categorize_funds R g m df)" m df g]
    categorize_funds_state_free
      [of R g m "map (\<lambda>r. r\<lparr>TpFundo := determine_fund_type (nome_fundo r)\<rparr>) df" g']
  by (simp add: transform_funds_def Let_def)


section \<open>Redistribution: what a parent keeps and what its children get\<close>

lemma apply_slices_Nil: "apply_slices df [] = df"
  by (simp add: apply_slices_def)

lemma apply_slices_Cons:
  "apply_slices df ((fic, idxs) # slices) = apply_slices (assign_fic fic idxs df) slices"
  by (simp add: apply_slices_def)

lemma assign_fic_Nil: "assign_fic fic [] df = df"
  by (simp add: assign_fic_def loc_set_def)

lemma distribute_fics_slices:
  "distribute_fics rpf ds i fics df = apply_slices df (fic_slices rpf ds i fics)"
  by (induction fics arbitrary: i df)
    (simp_all add: Let_def apply_slices_Nil apply_slices_Cons assign_fic_Nil)

lemma assign_fic_labels: "map label (assign_fic fic idxs df) = map label df"
  by (simp add: assign_fic_def loc_set_labels)

lemma assign_fic_nome_fundo: "map nome_fundo (assign_fic fic idxs df) = map nome_fundo df"
  by (simp add: assign_fic_def loc_set_nome_fundo)

lemma apply_slices_labels: "map label (apply_slices df slices) = map label df"
  by (induction slices arbitrary: df) (auto simp: apply_slices_Nil apply_slices_Cons assign_fic_labels)

lemma apply_slices_nome_fundo: "map nome_fundo (apply_slices df slices) = map nome_fundo df"
  by (induction slices arbitrary: df)
    (auto simp: apply_slices_Nil apply_slices_Cons assign_fic_nome_fundo)

lemma apply_slices_length: "length (apply_slices df slices) = length df"
  using apply_slices_labels [of df slices] by (metis length_map)

lemma apply_slices_nth_unassigned:
  "i < length df \<Longrightarrow> label (df ! i) \<notin> set (concat (map snd slices)) \<Longrightarrow>
   apply_slices df slices ! i = df ! i"
proof (induction slices arbitrary: df)
  case Nil
  then show ?case by (simp add: apply_slices_Nil)
next
  case (Cons s slices)
  obtain fic idxs where s: "s = (fic, idxs)" by (cases s)
  let ?df = "assign_fic fic idxs df"
  have same: "?df ! i = df ! i"
    using Cons.prems by (simp add: s assign_fic_def loc_set_nth_other)
  have len: "length ?df = length df" by (simp add: assign_fic_def loc_set_length)
  have "apply_slices ?df slices ! i = ?df ! i"
    using Cons.prems same len by (intro Cons.IH) (auto simp: s)
  then show ?case by (simp add: s apply_slices_Cons same)
qed

lemma apply_slices_nth_assigned:
  "distinct (concat (map snd slices)) \<Longrightarrow> (fic, idxs) \<in> set slices \<Longrightarrow> i < length df \<Longrightarrow>
   label (df ! i) \<in> set idxs \<Longrightarrow>
   apply_slices df slices ! i = (df ! i)\<lparr>nmcategorizado := fic, TpFundo := determine_fic_type fic\<rparr>"
proof (induction slices arbitrary: df)
  case Nil
  then show ?case by simp
next
  case (Cons s slices)
  obtain f0 i0 where s: "s = (f0, i0)" by (cases s)
  let ?df = "assign_fic f0 i0 df"
  have len: "length ?df = length df" by (simp add: assign_fic_def loc_set_length)
  have lab: "label (?df ! i) = label (df ! i)"
    using Cons.prems(3) assign_fic_labels by (rule nth_label)
  show ?case
  proof (cases "(fic, idxs) = (f0, i0)")
    case True
    then have here: "?df ! i = (df ! i)\<lparr>nmcategorizado := fic, TpFundo := determine_fic_type fic\<rparr>"
      using Cons.prems by (simp add: assign_fic_def loc_set_nth_in)
    have "label (df ! i) \<notin> set (concat (map snd slices))"
      using Cons.prems(1,4) True by (auto simp: s)
    then have "apply_slices ?df slices ! i = ?df ! i"
      using Cons.prems(3) len lab by (intro apply_slices_nth_unassigned) auto
    then show ?thesis by (simp add: s apply_slices_Cons here)
  next
    case False
    then have mem: "(fic, idxs) \<in> set slices" using Cons.prems(2) by (auto simp: s)
    then have "set idxs \<subseteq> set (concat (map snd slices))" by force
    then have "label (df ! i) \<notin> set i0"
      using Cons.prems(1,4) by (auto simp: s)
    then have same: "?df ! i = df ! i"
      using Cons.prems(3) by (simp add: assign_fic_def loc_set_nth_other)
    have "apply_slices ?df slices ! i
            = (?df ! i)\<lparr>nmcategorizado := fic, TpFundo := determine_fic_type fic\<rparr>"
      using Cons.prems mem len lab by (intro Cons.IH) (auto simp: s)
    then show ?thesis by (simp add: s apply_slices_Cons same)
  qed
qed

lemma fic_slices_concat:
  "0 < rpf \<Longrightarrow>
   concat (map snd (fic_slices rpf ds i fics)) = take (length fics * rpf) (drop (i * rpf) ds)"
proof (induction fics arbitrary: i)
  case Nil
  then show ?case by simp
next
  case (Cons fic fics)
  show ?case
  proof (cases "i * rpf \<ge> length ds")
    case True
    then show ?thesis by simp
  next
    case False
    let ?xs = "drop (i * rpf) ds"
    have slice: "take (min (rpf + i * rpf) (length ds) - i * rpf) ?xs = take rpf ?xs"
      using False by (auto simp: min_def)
    have ne: "take rpf ?xs \<noteq> []" using False Cons.prems by auto
    have rest: "drop (rpf + i * rpf) ds = drop rpf ?xs"
      by (simp add: add.commute)
    have pos: "\<not> min (rpf + i * rpf) (length ds) \<le> i * rpf"
      using False Cons.prems by (auto simp: min_def)
    have "concat (map snd (fic_slices rpf ds i (fic # fics)))
            = take rpf ?xs @ take (length fics * rpf) (drop rpf ?xs)"
      using False ne pos Cons.IH [OF Cons.prems, of "Suc i"]
      by (simp add: Let_def slice rest del: drop_drop)
    also have "\<dots> = take (rpf + length fics * rpf) ?xs"
      by (simp add: take_add)
    finally show ?thesis by simp
  qed
qed

lemma categorize_parent_slices:
  "fst (categorize_parent R fidc_name fics_list (df, g))
     = apply_slices df (parent_slices R fidc_name fics_list df)"
  by (cases fics_list)
    (simp_all add: categorize_parent_def parent_slices_def Let_def distribute_fics_slices
      apply_slices_Nil)

lemma parent_slices_take_drop:
  "\<exists>n k. concat (map snd (parent_slices R fidc_name fics_list df))
     = take n (drop k (fst (shuffle R (seed R 42) (map label (filter (fidc_mask fidc_name) df)))))"
proof (cases "parent_slices R fidc_name fics_list df = []")
  case True
  then have "concat (map snd (parent_slices R fidc_name fics_list df))
     = take 0 (drop 0 (fst (shuffle R (seed R 42) (map label (filter (fidc_mask fidc_name) df)))))"
    by simp
  then show ?thesis by blast
next
  case False
  then show ?thesis
    unfolding parent_slices_def Let_def
    by (auto simp: fic_slices_concat split: if_splits)
qed

lemma parent_slices_distinct:
  assumes "distinct (map label df)" and "shuffle_permutes R"
  shows "distinct (concat (map snd (parent_slices R fidc_name fics_list df)))"
    and "set (concat (map snd (parent_slices R fidc_name fics_list df)))
           \<subseteq> label ` set (filter (fidc_mask fidc_name) df)"
proof -
  let ?idxs = "map label (filter (fidc_mask fidc_name) df)"
  let ?sh = "fst (shuffle R (seed R 42) ?idxs)"
  have perm: "mset ?sh = mset ?idxs"
    using assms(2) by (simp add: shuffle_permutes_def)
  have "distinct ?idxs" using assms(1) by (rule distinct_map_filter)
  then have dsh: "distinct ?sh" using perm by (metis mset_eq_imp_distinct_iff)
  have ssh: "set ?sh = set ?idxs" using perm by (rule mset_eq_setD)
  obtain n k where c: "concat (map snd (parent_slices R fidc_name fics_list df)) = take n (drop k ?sh)"
    using parent_slices_take_drop by blast
  show "distinct (concat (map snd (parent_slices R fidc_name fics_list df)))"
    unfolding c using dsh by simp
  have "set (take n (drop k ?sh)) \<subseteq> set ?sh"
    by (meson set_take_subset set_drop_subset subset_trans)
  then show "set (concat (map snd (parent_slices R fidc_name fics_list df)))
           \<subseteq> label ` set (filter (fidc_mask fidc_name) df)"
    unfolding c ssh by simp
qed

lemma count_labelled:
  assumes "distinct (map label df)" and "distinct idxs" and "set idxs \<subseteq> label ` set df"
  shows "length (filter (\<lambda>r. label r \<in> set idxs) df) = length idxs"
proof -
  have "length (filter (\<lambda>r. label r \<in> set idxs) df)
          = length (filter (\<lambda>l. l \<in> set idxs) (map label df))"
    by (simp add: filter_map comp_def)
  also have "\<dots> = card ({l. l \<in> set idxs} \<inter> set (map label df))"
    using assms(1) by (rule distinct_length_filter)
  also have "{l. l \<in> set idxs} \<inter> set (map label df) = set idxs"
    using assms(3) by auto
  also have "card (set idxs) = length idxs"
    using assms(2) by (rule distinct_card)
  finally show ?thesis .
qed

lemma filter_length_cong:
  "map label df' = map label df \<Longrightarrow> map nome_fundo df' = map nome_fundo df \<Longrightarrow>
   length (filter (\<lambda>r. F (label r) (nome_fundo r)) df')
     = length (filter (\<lambda>r. F (label r) (nome_fundo r)) df)"
  by (induction df arbitrary: df') auto

lemma retained_count:
  assumes "distinct (map label df)" and "distinct A"
    and "set A \<subseteq> label ` set (filter (fidc_mask fidc_name) df)"
  shows "length (filter (\<lambda>r. fidc_mask fidc_name r \<and> label r \<notin> set A) df) + length A
           = length (filter (fidc_mask fidc_name) df)"
proof -
  let ?m = "filter (fidc_mask fidc_name) df"
  have "distinct (map label ?m)" using assms(1) by (rule distinct_map_filter)
  then have "length (filter (\<lambda>r. label r \<in> set A) ?m) = length A"
    using assms(2,3) by (rule count_labelled)
  moreover have "length (filter (\<lambda>r. label r \<in> set A) ?m)
                   + length (filter (\<lambda>r. \<not> label r \<in> set A) ?m) = length ?m"
    by (rule sum_length_filter_compl)
  moreover have "filter (\<lambda>r. \<not> label r \<in> set A) ?m
                   = filter (\<lambda>r. fidc_mask fidc_name r \<and> label r \<notin> set A) df"
    by (simp add: conj_commute)
  ultimately show ?thesis by simp
qed

lemma assigned_rows_count:
  assumes "distinct (map label df)" and "map label df' = map label df"
    and "distinct idxs" and "set idxs \<subseteq> label ` set df"
  shows "length (assigned_rows idxs df') = length idxs"
proof -
  have "distinct (map label df')" using assms(1,2) by simp
  moreover have "label ` set df' = label ` set df"
    using assms(2) by (metis set_map)
  ultimately show ?thesis
    unfolding assigned_rows_def using assms(3,4) by (intro count_labelled) auto
qed

lemma slices_sum_count:
  assumes "distinct (map label df)" and "map label df' = map label df"
    and "distinct (concat (map snd slices))"
    and "set (concat (map snd slices)) \<subseteq> label ` set df"
  shows "(\<Sum>(fic, fic_indices)\<leftarrow>slices. length (assigned_rows fic_indices df'))
           = length (concat (map snd slices))"
  using assms(3,4)
proof (induction slices)
  case Nil
  then show ?case by simp
next
  case (Cons s slices)
  obtain fic idxs where s: "s = (fic, idxs)" by (cases s)
  have "length (assigned_rows idxs df') = length idxs"
    using assms(1,2) Cons.prems by (intro assigned_rows_count) (auto simp: s)
  moreover have "(\<Sum>(fic, fic_indices)\<leftarrow>slices. length (assigned_rows fic_indices df'))
           = length (concat (map snd slices))"
    using Cons.prems by (intro Cons.IH) (auto simp: s)
  ultimately show ?case by (simp add: s)
qed

lemma retained_rows_count:
  assumes "distinct (map label df)" and "shuffle_permutes R"
  shows "length (retained_rows fidc_name (parent_slices R fidc_name fics_list df)
                  (apply_slices df (parent_slices R fidc_name fics_list df)))
           + length (concat (map snd (parent_slices R fidc_name fics_list df)))
         = length (filter (fidc_mask fidc_name) df)"
proof -
  let ?slices = "parent_slices R fidc_name fics_list df"
  let ?A = "concat (map snd ?slices)"
  let ?df = "apply_slices df ?slices"
  let ?F = "\<lambda>l n. (str_in (normalize_string fidc_name) (normalize_string n)
                    \<or> str_in (normalize_string n) (normalize_string fidc_name))
                   \<and> l \<notin> set ?A"
  have "length (filter (\<lambda>r. ?F (label r) (nome_fundo r)) ?df)
          = length (filter (\<lambda>r. ?F (label r) (nome_fundo r)) df)"
    by (rule filter_length_cong) (rule apply_slices_labels, rule apply_slices_nome_fundo)
  then have "length (retained_rows fidc_name ?slices ?df)
               = length (filter (\<lambda>r. fidc_mask fidc_name r \<and> label r \<notin> set ?A) df)"
    by (simp add: retained_rows_def fidc_mask_def)
  moreover have "length (filter (\<lambda>r. fidc_mask fidc_name r \<and> label r \<notin> set ?A) df) + length ?A
                   = length (filter (fidc_mask fidc_name) df)"
    using assms by (intro retained_count parent_slices_distinct)
  ultimately show ?thesis by simp
qed

lemma assigned_rows_named:
  assumes "distinct (concat (map snd slices))" and "(fic, idxs) \<in> set slices"
    and "r \<in> set (assigned_rows idxs (apply_slices df slices))"
  shows "nmcategorizado r = fic \<and> TpFundo r = determine_fic_type fic"
proof -
  let ?df = "apply_slices df slices"
  from assms(3) have "r \<in> set ?df" and lab: "label r \<in> set idxs"
    by (auto simp: assigned_rows_def)
  then obtain i where i: "i < length ?df" and r: "r = ?df ! i"
    by (metis in_set_conv_nth)
  have len: "i < length df" using i by (simp add: apply_slices_length)
  have "label (?df ! i) = label (df ! i)"
    using len apply_slices_labels by (rule nth_label)
  then have "label (df ! i) \<in> set idxs" using lab r by simp
  with assms(1,2) len
  have "?df ! i = (df ! i)\<lparr>nmcategorizado := fic, TpFundo := determine_fic_type fic\<rparr>"
    by (rule apply_slices_nth_assigned)
  then show ?thesis by (simp add: r)
qed

lemma assign_fic_filter_outside:
  assumes "set idxs \<subseteq> B"
  shows "filter (\<lambda>r. F (label r) (nome_fundo r) \<and> label r \<notin> B) (assign_fic fic idxs df)
           = filter (\<lambda>r. F (label r) (nome_fundo r) \<and> label r \<notin> B) df"
  using assms by (induction df) (auto simp: assign_fic_def loc_set_def)

lemma apply_slices_filter_outside:
  assumes "set (concat (map snd slices)) \<subseteq> B"
  shows "filter (\<lambda>r. F (label r) (nome_fundo r) \<and> label r \<notin> B) (apply_slices df slices)
           = filter (\<lambda>r. F (label r) (nome_fundo r) \<and> label r \<notin> B) df"
  using assms
proof (induction slices arbitrary: df)
  case Nil
  then show ?case by (simp add: apply_slices_Nil)
next
  case (Cons s slices)
  obtain fic idxs where s: "s = (fic, idxs)" by (cases s)
  have "filter (\<lambda>r. F (label r) (nome_fundo r) \<and> label r \<notin> B)
          (apply_slices (assign_fic fic idxs df) slices)
        = filter (\<lambda>r. F (label r) (nome_fundo r) \<and> label r \<notin> B) (assign_fic fic idxs df)"
    using Cons.prems by (intro Cons.IH) (auto simp: s)
  also have "\<dots> = filter (\<lambda>r. F (label r) (nome_fundo r) \<and> label r \<notin> B) df"
    using Cons.prems by (intro assign_fic_filter_outside) (auto simp: s)
  finally show ?case by (simp add: s apply_slices_Cons)
qed

lemma retained_rows_unchanged:
  "retained_rows fidc_name slices (apply_slices df slices) = retained_rows fidc_name slices df"
  unfolding retained_rows_def fidc_mask_def
  by (rule apply_slices_filter_outside) simp

text \<open>
  One parent step on a DataFrame with distinct index labels, with a shuffle that
  permutes: the DataFrame keeps its rows (same labels, same order), no label is in two
  slices, the rows the parent keeps and the rows of all the slices add up to exactly the
  number of rows the parent's mask selects, every row of a slice carries the name and
  the type of the child that slice belongs to, and the rows the parent keeps are those
  rows as they were before the step.
\<close>

lemma parent_step_conserves_rows:
  assumes "distinct (map label df)" and "shuffle_permutes R"
  shows "let slices = parent_slices R fidc_name fics_list df;
             df' = fst (categorize_parent R fidc_name fics_list (df, g))
         in map label df' = map label df
            \<and> distinct (concat (map snd slices))
            \<and> length (retained_rows fidc_name slices df')
                + (\<Sum>(fic, fic_indices)\<leftarrow>slices. length (assigned_rows fic_indices df'))
              = length (filter (fidc_mask fidc_name) df)
            \<and> list_all (\<lambda>(fic, fic_indices).
                 list_all (\<lambda>r. nmcategorizado r = fic \<and> TpFundo r = determine_fic_type fic)
                   (assigned_rows fic_indices df')) slices
            \<and> retained_rows fidc_name slices df' = retained_rows fidc_name slices df"
proof -
  let ?slices = "parent_slices R fidc_name fics_list df"
  let ?df = "apply_slices df ?slices"
  have d: "distinct (concat (map snd ?slices))"
    and sub: "set (concat (map snd ?slices)) \<subseteq> label ` set (filter (fidc_mask fidc_name) df)"
    using assms by (rule parent_slices_distinct)+
  have lab: "map label ?df = map label df" by (rule apply_slices_labels)
  have "(\<Sum>(fic, fic_indices)\<leftarrow>?slices. length (assigned_rows fic_indices ?df))
          = length (concat (map snd ?slices))"
    using assms(1) lab d sub by (intro slices_sum_count) auto
  then have count: "length (retained_rows fidc_name ?slices ?df)
                + (\<Sum>(fic, fic_indices)\<leftarrow>?slices. length (assigned_rows fic_indices ?df))
              = length (filter (fidc_mask fidc_name) df)"
    using retained_rows_count [OF assms, of fidc_name fics_list] by simp
  have named: "list_all (\<lambda>(fic, fic_indices).
                 list_all (\<lambda>r. nmcategorizado r = fic \<and> TpFundo r = determine_fic_type fic)
                   (assigned_rows fic_indices ?df)) ?slices"
    unfolding list_all_iff using assigned_rows_named [OF d] by fast
  have kept: "retained_rows fidc_name ?slices ?df = retained_rows fidc_name ?slices df"
    by (rule retained_rows_unchanged)
  show ?thesis
    unfolding Let_def categorize_parent_slices using lab d count named kept by blast
qed

text \<open>
  Four rows of \<open>LION FIDC\<close> and two children, with the reversing shuffle: two rows
  stay, and each child receives one.
\<close>

lemma parent_step_four_rows:
  "distinct (map label
     [\<lparr>label = 0, nome_fundo = ''LION FIDC'', TpFundo = ''FIDC'', nmcategorizado = ''LION FIDC''\<rparr>,
      \<lparr>label = 1, nome_fundo = ''LION FIDC'', TpFundo = ''FIDC'', nmcategorizado = ''LION FIDC''\<rparr>,
      \<lparr>label = 2, nome_fundo = ''LION FIDC'', TpFundo = ''FIDC'', nmcategorizado = ''LION FIDC''\<rparr>,
      \<lparr>label = 3, nome_fundo = ''LION FIDC'', TpFundo = ''FIDC'', nmcategorizado = ''LION FIDC''\<rparr>])
   \<and> shuffle_permutes \<lparr>seed = (\<lambda>n. n), shuffle = (\<lambda>g xs. (rev xs, g + 1))\<rparr>
   \<and> parent_slices \<lparr>seed = (\<lambda>n. n), shuffle = (\<lambda>g xs. (rev xs, g + (1::int)))\<rparr>
        ''LION FIDC'' [''LION FIC A'', ''LION FIC B'']
        [\<lparr>label = 0, nome_fundo = ''LION FIDC'', TpFundo = ''FIDC'', nmcategorizado = ''LION FIDC''\<rparr>,
         \<lparr>label = 1, nome_fundo = ''LION FIDC'', TpFundo = ''FIDC'', nmcategorizado = ''LION FIDC''\<rparr>,
         \<lparr>label = 2, nome_fundo = ''LION FIDC'', TpFundo = ''FIDC'', nmcategorizado = ''LION FIDC''\<rparr>,
         \<lparr>label = 3, nome_fundo = ''LION FIDC'', TpFundo = ''FIDC'', nmcategorizado = ''LION FIDC''\<rparr>]
       = [(''LION FIC A'', [1]), (''LION FIC B'', [0])]
   \<and> (let slices = parent_slices \<lparr>seed = (\<lambda>n. n), shuffle = (\<lambda>g xs. (rev xs, g + 1))\<rparr>
                      ''LION FIDC'' [''LION FIC A'', ''LION FIC B'']
          [\<lparr>label = 0, nome_fundo = ''LION FIDC'', TpFundo = ''FIDC'', nmcategorizado = ''LION FIDC''\<rparr>,
           \<lparr>label = 1, nome_fundo = ''LION FIDC'', TpFundo = ''FIDC'', nmcategorizado = ''LION FIDC''\<rparr>,
           \<lparr>label = 2, nome_fundo = ''LION FIDC'', TpFundo = ''FIDC'', nmcategorizado = ''LION FIDC''\<rparr>,
           \<lparr>label = 3, nome_fundo = ''LION FIDC'', TpFundo = ''FIDC'', nmcategorizado = ''LION FIDC''\<rparr>];
            df' = fst (categorize_parent \<lparr>seed = (\<lambda>n. n), shuffle = (\<lambda>g xs. (rev xs, g + 1))\<rparr>
                      ''LION FIDC'' [''LION FIC A'', ''LION FIC B'']
          ([\<lparr>label = 0, nome_fundo = ''LION FIDC'', TpFundo = ''FIDC'', nmcategorizado = ''LION FIDC''\<rparr>,
           \<lparr>label = 1, nome_fundo = ''LION FIDC'', TpFundo = ''FIDC'', nmcategorizado = ''LION FIDC''\<rparr>,
           \<lparr>label = 2, nome_fundo = ''LION FIDC'', TpFundo = ''FIDC'', nmcategorizado = ''LION FIDC''\<rparr>,
           \<lparr>label = 3, nome_fundo = ''LION FIDC'', TpFundo = ''FIDC'', nmcategorizado = ''LION FIDC''\<rparr>], 0))
        in map label df' = map label
          [\<lparr>label = 0, nome_fundo = ''LION FIDC'', TpFundo = ''FIDC'', nmcategorizado = ''LION FIDC''\<rparr>,
           \<lparr>label = 1, nome_fundo = ''LION FIDC'', TpFundo = ''FIDC'', nmcategorizado = ''LION FIDC''\<rparr>,
           \<lparr>label = 2, nome_fundo = ''LION FIDC'', TpFundo = ''FIDC'', nmcategorizado = ''LION FIDC''\<rparr>,
           \<lparr>label = 3, nome_fundo = ''LION FIDC'', TpFundo = ''FIDC'', nmcategorizado = ''LION FIDC''\<rparr>]
            \<and> distinct (concat (map snd slices))
            \<and> length (retained_rows ''LION FIDC'' slices df')
                + (\<Sum>(fic, fic_indices)\<leftarrow>slices. length (assigned_rows fic_indices df'))
              = length (filter (fidc_mask ''LION FIDC'')
          [\<lparr>label = 0, nome_fundo = ''LION FIDC'', TpFundo = ''FIDC'', nmcategorizado = ''LION FIDC''\<rparr>,
           \<lparr>label = 1, nome_fundo = ''LION FIDC'', TpFundo = ''FIDC'', nmcategorizado = ''LION FIDC''\<rparr>,
           \<lparr>label = 2, nome_fundo = ''LION FIDC'', TpFundo = ''FIDC'', nmcategorizado = ''LION FIDC''\<rparr>,
           \<lparr>label = 3, nome_fundo = ''LION FIDC'', TpFundo = ''FIDC'', nmcategorizado = ''LION FIDC''\<rparr>])
            \<and> list_all (\<lambda>(fic, fic_indices).
                 list_all (\<lambda>r. nmcategorizado r = fic \<and> TpFundo r = determine_fic_type fic)
                   (assigned_rows fic_indices df')) slices
            \<and> retained_rows ''LION FIDC'' slices df' = retained_rows ''LION FIDC'' slices
          [\<lparr>label = 0, nome_fundo = ''LION FIDC'', TpFundo = ''FIDC'', nmcategorizado = ''LION FIDC''\<rparr>,
           \<lparr>label = 1, nome_fundo = ''LION FIDC'', TpFundo = ''FIDC'', nmcategorizado = ''LION FIDC''\<rparr>,
           \<lparr>label = 2, nome_fundo = ''LION FIDC'', TpFundo = ''FIDC'', nmcategorizado = ''LION FIDC''\<rparr>,
           \<lparr>label = 3, nome_fundo = ''LION FIDC'', TpFundo = ''FIDC'', nmcategorizado = ''LION FIDC''\<rparr>])"
proof -
  let ?R = "\<lparr>seed = (\<lambda>n. n :: int), shuffle = (\<lambda>g xs. (rev xs, g + 1))\<rparr>"
  let ?rows = "[\<lparr>label = 0, nome_fundo = ''LION FIDC'', TpFundo = ''FIDC'', nmcategorizado = ''LION FIDC''\<rparr>,
      \<lparr>label = 1, nome_fundo = ''LION FIDC'', TpFundo = ''FIDC'', nmcategorizado = ''LION FIDC''\<rparr>,
      \<lparr>label = 2, nome_fundo = ''LION FIDC'', TpFundo = ''FIDC'', nmcategorizado = ''LION FIDC''\<rparr>,
      \<lparr>label = 3, nome_fundo = ''LION FIDC'', TpFundo = ''FIDC'', nmcategorizado = ''LION FIDC''\<rparr>]"
  have d: "distinct (map label ?rows)" by simp
  have p: "shuffle_permutes ?R" by (simp add: shuffle_permutes_def)
  have s: "parent_slices ?R ''LION FIDC'' [''LION FIC A'', ''LION FIC B''] ?rows
             = [(''LION FIC A'', [1]), (''LION FIC B'', [0])]"
    by code_simp
  from d p s
    parent_step_conserves_rows
      [OF d p, where fidc_name = "''LION FIDC''"
         and fics_list = "[''LION FIC A'', ''LION FIC B'']" and g = 0]
  show ?thesis by (intro conjI)
qed

lemma three_rows_one_child_slices:
  assumes m: "filter (fidc_mask fidc_name) df = df" and l: "length df = 3"
    and p: "shuffle_permutes R" and c: "fic \<noteq> ''-''"
  shows "length (concat (map snd (parent_slices R fidc_name [fic] df))) = 2"
proof -
  let ?sh = "fst (shuffle R (seed R 42) (map label df))"
  have "mset ?sh = mset (map label df)" using p by (simp add: shuffle_permutes_def)
  then have "length ?sh = length (map label df)" by (rule mset_eq_length)
  then have len: "length ?sh = 3" using l by simp
  have ne: "df \<noteq> []" using l by auto
  show ?thesis
    using c len ne by (simp add: parent_slices_def Let_def m l keep_original_count_def)
qed

lemma fic_slices_names:
  "(fc, idxs) \<in> set (fic_slices rpf ds i fics) \<Longrightarrow> fc \<in> set fics"
  by (induction fics arbitrary: i) (auto simp: Let_def split: if_splits)

lemma parent_slices_names:
  "(fc, idxs) \<in> set (parent_slices R fidc_name fics_list df) \<Longrightarrow> fc \<in> set fics_list"
  unfolding parent_slices_def Let_def
  by (auto dest: fic_slices_names split: if_splits)

lemma unassigned_rows_original:
  assumes "r \<in> set (apply_slices df slices)" and "label r \<notin> set (concat (map snd slices))"
  shows "r \<in> set df"
proof -
  let ?df = "apply_slices df slices"
  from assms(1) obtain i where i: "i < length ?df" and r: "r = ?df ! i"
    by (metis in_set_conv_nth)
  have len: "i < length df" using i by (simp add: apply_slices_length)
  have "label (?df ! i) = label (df ! i)"
    using len apply_slices_labels by (rule nth_label)
  then have "label (df ! i) \<notin> set (concat (map snd slices))" using assms(2) r by simp
  with len have "?df ! i = df ! i" by (rule apply_slices_nth_unassigned)
  then show ?thesis using r len by simp
qed

lemma categorize_funds_single:
  "fst (categorize_funds R g [(fidc_name, fics_list)] df)
     = apply_slices (map (\<lambda>r. r\<lparr>nmcategorizado := nome_fundo r\<rparr>) df)
         (parent_slices R fidc_name fics_list (map (\<lambda>r. r\<lparr>nmcategorizado := nome_fundo r\<rparr>) df))"
  by (simp add: categorize_funds_def categorize_parent_slices)

lemma lion_rows_matched:
  "filter (fidc_mask ''LION FIDC'')
     [\<lparr>label = 0, nome_fundo = ''LION FIDC'', TpFundo = ''FIDC'', nmcategorizado = ''LION FIDC''\<rparr>,
      \<lparr>label = 1, nome_fundo = ''LION FIDC'', TpFundo = ''FIDC'', nmcategorizado = ''LION FIDC''\<rparr>,
      \<lparr>label = 2, nome_fundo = ''LION FIDC'', TpFundo = ''FIDC'', nmcategorizado = ''LION FIDC''\<rparr>]
   = [\<lparr>label = 0, nome_fundo = ''LION FIDC'', TpFundo = ''FIDC'', nmcategorizado = ''LION FIDC''\<rparr>,
      \<lparr>label = 1, nome_fundo = ''LION FIDC'', TpFundo = ''FIDC'', nmcategorizado = ''LION FIDC''\<rparr>,
      \<lparr>label = 2, nome_fundo = ''LION FIDC'', TpFundo = ''FIDC'', nmcategorizado = ''LION FIDC''\<rparr>]"
  by code_simp

lemma lion_rows_count:
  "length (filter (fidc_mask ''LION FIDC'')
     [\<lparr>label = 0, nome_fundo = ''LION FIDC'', TpFundo = ''FIDC'', nmcategorizado = []\<rparr>,
      \<lparr>label = 1, nome_fundo = ''LION FIDC'', TpFundo = ''FIDC'', nmcategorizado = []\<rparr>,
      \<lparr>label = 2, nome_fundo = ''LION FIDC'', TpFundo = ''FIDC'', nmcategorizado = []\<rparr>]) = 3"
  by code_simp

lemma three_rows_one_child_counts:
  assumes dst: "distinct (map label df)" and p: "shuffle_permutes R"
    and matched: "filter (fidc_mask fidc_name) df = df" and l: "length df = 3"
    and c: "fic \<noteq> ''-''" and own: "list_all (\<lambda>r. nmcategorizado r = own_name) df"
    and ne: "fic \<noteq> own_name"
  shows "length (filter (\<lambda>r. nmcategorizado r = own_name)
                  (apply_slices df (parent_slices R fidc_name [fic] df))) = 1
         \<and> length (filter (\<lambda>r. nmcategorizado r = fic)
                  (apply_slices df (parent_slices R fidc_name [fic] df))) = 2"
proof -
  let ?slices = "parent_slices R fidc_name [fic] df"
  let ?A = "concat (map snd ?slices)"
  let ?out = "apply_slices df ?slices"
  have lenA: "length ?A = 2"
    using matched l p c by (rule three_rows_one_child_slices)
  have dA: "distinct ?A"
    and subA: "set ?A \<subseteq> label ` set (filter (fidc_mask fidc_name) df)"
    using dst p by (rule parent_slices_distinct)+
  have lab: "map label ?out = map label df" by (rule apply_slices_labels)
  have fic: "nmcategorizado r = fic \<longleftrightarrow> label r \<in> set ?A" if "r \<in> set ?out" for r
  proof
    assume n: "nmcategorizado r = fic"
    show "label r \<in> set ?A"
    proof (rule ccontr)
      assume "label r \<notin> set ?A"
      with that have "r \<in> set df" by (rule unassigned_rows_original)
      then have "nmcategorizado r = own_name" using own by (simp add: list_all_iff)
      with n ne show False by simp
    qed
  next
    assume "label r \<in> set ?A"
    then obtain fc idxs where mem: "(fc, idxs) \<in> set ?slices" and li: "label r \<in> set idxs"
      by auto
    with that have "r \<in> set (assigned_rows idxs ?out)" by (simp add: assigned_rows_def)
    with dA mem have "nmcategorizado r = fc" using assigned_rows_named by blast
    moreover from mem have "fc \<in> set [fic]" by (rule parent_slices_names)
    ultimately show "nmcategorizado r = fic" by simp
  qed
  have fidc: "nmcategorizado r = own_name \<longleftrightarrow> \<not> label r \<in> set ?A" if "r \<in> set ?out" for r
  proof
    assume "nmcategorizado r = own_name"
    then have "nmcategorizado r \<noteq> fic" using ne by simp
    with fic [OF that] show "\<not> label r \<in> set ?A" by simp
  next
    assume "\<not> label r \<in> set ?A"
    with that have "r \<in> set df" by (rule unassigned_rows_original)
    then show "nmcategorizado r = own_name" using own by (simp add: list_all_iff)
  qed
  have f1: "filter (\<lambda>r. nmcategorizado r = fic) ?out = filter (\<lambda>r. label r \<in> set ?A) ?out"
    using fic by (intro filter_cong) auto
  have f2: "filter (\<lambda>r. nmcategorizado r = own_name) ?out
              = filter (\<lambda>r. \<not> label r \<in> set ?A) ?out"
    using fidc by (intro filter_cong) auto
  have "set ?A \<subseteq> label ` set df" using subA by auto
  with dst lab dA have "length (assigned_rows ?A ?out) = length ?A"
    by (rule assigned_rows_count)
  then have two: "length (filter (\<lambda>r. label r \<in> set ?A) ?out) = 2"
    using lenA by (simp add: assigned_rows_def)
  have "length (filter (\<lambda>r. label r \<in> set ?A) ?out)
       + length (filter (\<lambda>r. \<not> label r \<in> set ?A) ?out) = length ?out"
    by (rule sum_length_filter_compl)
  moreover have "length ?out = 3" using l by (simp add: apply_slices_length)
  ultimately have one: "length (filter (\<lambda>r. \<not> label r \<in> set ?A) ?out) = 1"
    using two by simp
  show ?thesis unfolding f1 f2 using one two by simp
qed

text \<open>
  Claim C1. The claim asks that a parent keeps at least half of its rows, rounded up,
  as the comment in the source promises (at least 50 percent). With
  \<open>int(total_rows * 0.5)\<close> the code rounds down: three rows named \<open>LION FIDC\<close>
  and the mapping from \<open>LION FIDC\<close> to the one child \<open>LION FIC\<close> leave one row with
  the parent and give two to the child, whichever permutation the shuffle picks; one is
  less than the two rows the claim asks for.
\<close>

theorem three_rows_keep_one:
  assumes "shuffle_permutes R"
  shows "let df = [\<lparr>label = 0, nome_fundo = ''LION FIDC'', TpFundo = ''FIDC'', nmcategorizado = []\<rparr>,
                   \<lparr>label = 1, nome_fundo = ''LION FIDC'', TpFundo = ''FIDC'', nmcategorizado = []\<rparr>,
                   \<lparr>label = 2, nome_fundo = ''LION FIDC'', TpFundo = ''FIDC'', nmcategorizado = []\<rparr>];
             out = fst (categorize_funds R g [(''LION FIDC'', [''LION FIC''])] df)
         in length (filter (\<lambda>r. nmcategorizado r = ''LION FIDC'') out) = 1
            \<and> length (filter (\<lambda>r. nmcategorizado r = ''LION FIC'') out) = 2
            \<and> length (filter (\<lambda>r. nmcategorizado r = ''LION FIDC'') out)
                < nat \<lceil>(1 / 2 :: rat) * of_nat (length (filter (fidc_mask ''LION FIDC'') df))\<rceil>"
proof -
  let ?start = "[\<lparr>label = 0, nome_fundo = ''LION FIDC'', TpFundo = ''FIDC'', nmcategorizado = ''LION FIDC''\<rparr>,
      \<lparr>label = 1, nome_fundo = ''LION FIDC'', TpFundo = ''FIDC'', nmcategorizado = ''LION FIDC''\<rparr>,
      \<lparr>label = 2, nome_fundo = ''LION FIDC'', TpFundo = ''FIDC'', nmcategorizado = ''LION FIDC''\<rparr>]"
  let ?df = "[\<lparr>label = 0, nome_fundo = ''LION FIDC'', TpFundo = ''FIDC'', nmcategorizado = []\<rparr>,
                   \<lparr>label = 1, nome_fundo = ''LION FIDC'', TpFundo = ''FIDC'', nmcategorizado = []\<rparr>,
                   \<lparr>label = 2, nome_fundo = ''LION FIDC'', TpFundo = ''FIDC'', nmcategorizado = []\<rparr>]"
  let ?out = "apply_slices ?start (parent_slices R ''LION FIDC'' [''LION FIC''] ?start)"
  have out: "fst (categorize_funds R g [(''LION FIDC'', [''LION FIC''])] ?df) = ?out"
    by (simp add: categorize_funds_single)
  have matched': "length (filter (fidc_mask ''LION FIDC'') ?df) = 3"
    by (rule lion_rows_count)
  have "length (filter (\<lambda>r. nmcategorizado r = ''LION FIDC'') ?out) = 1
         \<and> length (filter (\<lambda>r. nmcategorizado r = ''LION FIC'') ?out) = 2"
  proof (rule three_rows_one_child_counts [OF _ assms lion_rows_matched])
    show "distinct (map label ?start)" by simp
    show "length ?start = 3" by simp
    show "''LION FIC'' \<noteq> ''-''" by simp
    show "list_all (\<lambda>r. nmcategorizado r = ''LION FIDC'') ?start" by simp
    show "''LION FIC'' \<noteq> ''LION FIDC''" by simp
  qed
  moreover have "\<lceil>(3 / 2 :: rat)\<rceil> = 2" by (rule ceiling_unique) simp_all
  then have "nat \<lceil>(3 / 2 :: rat)\<rceil> = 2" by simp
  ultimately show ?thesis
    unfolding Let_def out matched' by simp
qed

text \<open>
  Claim C6. The claim asks that the two rows end with the names of the children,
  \<open>AROEIRA FIC FIM\<close> and \<open>SECULO FIC FIM\<close>. The mask compares fund names with the
  name of the parent only, and the parent's name selects no row: both rows keep
  their own fund names as categorised names. Their type does end as \<open>FICFIM\<close>.
\<close>

theorem ipe_rows_keep_own_names:
  "let df = [\<lparr>label = 0, nome_fundo = ''AROEIRA FIC FIM CP'', TpFundo = [], nmcategorizado = []\<rparr>,
            \<lparr>label = 1, nome_fundo = ''SECULO FIC FIM CP'', TpFundo = [], nmcategorizado = []\<rparr>];
       out = fst (transform_funds R g
                [(''IP'' @ [CHR 0xCA], [''AROEIRA FIC FIM'', ''SECULO FIC FIM''])] df)
   in filter (fidc_mask (''IP'' @ [CHR 0xCA])) df = []
      \<and> map nmcategorizado out = [''AROEIRA FIC FIM CP'', ''SECULO FIC FIM CP'']
      \<and> map nmcategorizado out \<noteq> [''AROEIRA FIC FIM'', ''SECULO FIC FIM'']
      \<and> map TpFundo out = [''FICFIM'', ''FICFIM'']"
  by code_simp

text \<open>A generator whose shuffle reverses the list stands for the library here.\<close>

theorem three_rows_keep_one_witness:
  "shuffle_permutes \<lparr>seed = (\<lambda>n. n), shuffle = (\<lambda>g xs. (rev xs, g + 1))\<rparr>
   \<and> (let df = [\<lparr>label = 0, nome_fundo = ''LION FIDC'', TpFundo = ''FIDC'', nmcategorizado = []\<rparr>,
                   \<lparr>label = 1, nome_fundo = ''LION FIDC'', TpFundo = ''FIDC'', nmcategorizado = []\<rparr>,
                   \<lparr>label = 2, nome_fundo = ''LION FIDC'', TpFundo = ''FIDC'', nmcategorizado = []\<rparr>];
             out = fst (categorize_funds \<lparr>seed = (\<lambda>n. n), shuffle = (\<lambda>g xs. (rev xs, g + 1))\<rparr> 0
                     [(''LION FIDC'', [''LION FIC''])] df)
         in length (filter (\<lambda>r. nmcategorizado r = ''LION FIDC'') out) = 1
            \<and> length (filter (\<lambda>r. nmcategorizado r = ''LION FIC'') out) = 2
            \<and> length (filter (\<lambda>r. nmcategorizado r = ''LION FIDC'') out)
                < nat \<lceil>(1 / 2 :: rat) * of_nat (length (filter (fidc_mask ''LION FIDC'') df))\<rceil>)"
proof -
  have p: "shuffle_permutes \<lparr>seed = (\<lambda>n. n :: int), shuffle = (\<lambda>g xs. (rev xs, g + 1))\<rparr>"
    by (simp add: shuffle_permutes_def)
  from p three_rows_keep_one [OF p, where g = 0] show ?thesis by (rule conjI)
qed

text \<open>With that generator the rows labelled 0 and 1 go to the child.\<close>

lemma three_rows_reversing_shuffle:
  "map nmcategorizado
     (fst (categorize_funds \<lparr>seed = (\<lambda>n. n), shuffle = (\<lambda>g xs. (rev xs, g + (1::int)))\<rparr> 0
        [(''LION FIDC'', [''LION FIC''])]
        [\<lparr>label = 0, nome_fundo = ''LION FIDC'', TpFundo = ''FIDC'', nmcategorizado = []\<rparr>,
         \<lparr>label = 1, nome_fundo = ''LION FIDC'', TpFundo = ''FIDC'', nmcategorizado = []\<rparr>,
         \<lparr>label = 2, nome_fundo = ''LION FIDC'', TpFundo = ''FIDC'', nmcategorizado = []\<rparr>]))
   = [''LION FIC'', ''LION FIC'', ''LION FIDC'']"
  by code_simp

section \<open>Redistribution over the whole mapping\<close>

text \<open>
  The loop of \<open>categorize_funds\<close> is one application of the slices of all the parents:
  the slices depend on the labels and the fund names only, and no step changes those.
\<close>

lemma assign_fic_map: "assign_fic fic idxs df = map (assign_row fic idxs) df"
  by (simp add: assign_fic_def loc_set_def assign_row_def)

lemma slices_row_Nil: "slices_row [] r = r"
  by (simp add: slices_row_def)

lemma slices_row_Cons: "slices_row ((fic, idxs) # slices) r = slices_row slices (assign_row fic idxs r)"
  by (simp add: slices_row_def)

lemma slices_row_append: "slices_row (s1 @ s2) r = slices_row s2 (slices_row s1 r)"
  by (simp add: slices_row_def)

lemma apply_slices_map: "apply_slices df slices = map (slices_row slices) df"
proof (induction slices arbitrary: df)
  case Nil
  then show ?case by (simp add: apply_slices_Nil slices_row_Nil)
next
  case (Cons s slices)
  obtain fic idxs where s: "s = (fic, idxs)" by (cases s)
  show ?case
    by (simp add: s apply_slices_Cons Cons.IH assign_fic_map slices_row_Cons)
qed

lemma apply_slices_append:
  "apply_slices df (s1 @ s2) = apply_slices (apply_slices df s1) s2"
  by (simp add: apply_slices_def)

lemma slices_row_label: "label (slices_row slices r) = label r"
  using apply_slices_labels [of "[r]" slices] by (simp add: apply_slices_map)

lemma slices_row_nome_fundo: "nome_fundo (slices_row slices r) = nome_fundo r"
  using apply_slices_nome_fundo [of "[r]" slices] by (simp add: apply_slices_map)

lemma slices_row_outside:
  "label r \<notin> set (concat (map snd slices)) \<Longrightarrow> slices_row slices r = r"
  using apply_slices_nth_unassigned [of 0 "[r]" slices] by (simp add: apply_slices_map)

lemma slices_row_inside:
  "distinct (concat (map snd slices)) \<Longrightarrow> (fic, idxs) \<in> set slices \<Longrightarrow> label r \<in> set idxs \<Longrightarrow>
   slices_row slices r = r\<lparr>nmcategorizado := fic, TpFundo := determine_fic_type fic\<rparr>"
  using apply_slices_nth_assigned [of slices fic idxs 0 "[r]"] by (simp add: apply_slices_map)

lemma label_filter_cong:
  "map label df' = map label df \<Longrightarrow> map nome_fundo df' = map nome_fundo df \<Longrightarrow>
   map label (filter (\<lambda>r. F (nome_fundo r)) df') = map label (filter (\<lambda>r. F (nome_fundo r)) df)"
  by (induction df arbitrary: df') auto

lemma parent_slices_labels_only:
  "parent_slices R fidc_name fics_list df =
     (let fidc_indices = map label (filter (fidc_mask fidc_name) df);
          total_rows = length fidc_indices;
          rows_to_distribute = total_rows - keep_original_count total_rows;
          rows_per_fic = max 1 (rows_to_distribute div length fics_list);
          shuffled = fst (shuffle R (seed R 42) fidc_indices)
      in if fics_list = [] then []
         else if hd fics_list = ''-'' then []
         else if total_rows = 0 then []
         else if rows_to_distribute \<le> 0 then []
         else fic_slices rows_per_fic (drop (keep_original_count total_rows) shuffled) 0 fics_list)"
  by (simp add: parent_slices_def Let_def)

lemma parent_slices_cong:
  fixes df df' :: "'a dataframe"
  assumes "map label df' = map label df" and "map nome_fundo df' = map nome_fundo df"
  shows "parent_slices R fidc_name fics_list df' = parent_slices R fidc_name fics_list df"
proof -
  have "map label (filter (fidc_mask fidc_name) df') = map label (filter (fidc_mask fidc_name) df)"
    unfolding fidc_mask_def using assms by (rule label_filter_cong)
  then show ?thesis by (simp only: parent_slices_labels_only)
qed

lemma engine_slices_cong:
  fixes df df' :: "'a dataframe"
  assumes "map label df' = map label df" and "map nome_fundo df' = map nome_fundo df"
  shows "engine_slices R m df' = engine_slices R m df"
  unfolding engine_slices_def
  by (simp add: parent_slices_cong [OF assms])

lemma engine_fold_slices:
  fixes d df :: "'a dataframe"
  assumes "map label d = map label df" and "map nome_fundo d = map nome_fundo df"
  shows "fst (foldl (\<lambda>st (fidc_name, fics_list). categorize_parent R fidc_name fics_list st) (d, g) m)
           = apply_slices d (engine_slices R m df)"
  using assms
proof (induction m arbitrary: d g)
  case Nil
  then show ?case by (simp add: engine_slices_def apply_slices_Nil)
next
  case (Cons p m)
  obtain n fl where p: "p = (n, fl)" by (cases p)
  let ?d = "apply_slices d (parent_slices R n fl df)"
  have same: "parent_slices R n fl d = parent_slices R n fl df"
    using Cons.prems by (rule parent_slices_cong)
  obtain g' where step: "categorize_parent R n fl (d, g) = (?d, g')"
    using categorize_parent_slices [of R n fl d g] same
    by (metis prod.collapse)
  have "fst (foldl (\<lambda>st (fidc_name, fics_list). categorize_parent R fidc_name fics_list st) (?d, g') m)
          = apply_slices ?d (engine_slices R m df)"
    using Cons.prems by (intro Cons.IH) (simp_all add: apply_slices_labels apply_slices_nome_fundo)
  then show ?case
    by (simp add: p step engine_slices_def apply_slices_append)
qed

lemma categorize_funds_slices:
  "fst (categorize_funds R g m df)
     = apply_slices (map (\<lambda>r. r\<lparr>nmcategorizado := nome_fundo r\<rparr>) df) (engine_slices R m df)"
proof -
  let ?start = "map (\<lambda>r. r\<lparr>nmcategorizado := nome_fundo r\<rparr>) df"
  have l: "map label ?start = map label df" and n: "map nome_fundo ?start = map nome_fundo df"
    by simp_all
  show ?thesis
    unfolding categorize_funds_def by (rule engine_fold_slices [OF l n])
qed

lemma engine_slices_append:
  "engine_slices R (m1 @ (fidc_name, fics_list) # m2) df
     = engine_slices R m1 df @ parent_slices R fidc_name fics_list df @ engine_slices R m2 df"
  by (simp add: engine_slices_def)

lemma others_avoid:
  "list_all (\<lambda>(other, other_fics).
      set (concat (map snd (parent_slices R other other_fics df))) \<inter> L = {}) ms \<Longrightarrow>
   set (concat (map snd (engine_slices R ms df))) \<inter> L = {}"
proof (induction ms)
  case Nil
  show ?case by (simp add: engine_slices_def)
next
  case (Cons m ms)
  obtain other other_fics where m: "m = (other, other_fics)" by (cases m)
  have split: "engine_slices R (m # ms) df
                 = parent_slices R other other_fics df @ engine_slices R ms df"
    by (simp add: engine_slices_def m)
  from Cons.prems have hd: "set (concat (map snd (parent_slices R other other_fics df))) \<inter> L = {}"
    and tl: "set (concat (map snd (engine_slices R ms df))) \<inter> L = {}"
    using Cons.IH by (simp_all add: m)
  show ?case unfolding split using hd tl by (simp add: Int_Un_distrib2)
qed

lemma own_parent_row:
  assumes "label r \<in> L" and "set (concat (map snd s1)) \<inter> L = {}"
    and "set (concat (map snd s2)) \<inter> L = {}"
  shows "slices_row (s1 @ sp @ s2) r = slices_row sp r"
proof -
  have "slices_row s1 r = r" using assms(1,2) by (intro slices_row_outside) auto
  moreover have "label (slices_row sp r) \<notin> set (concat (map snd s2))"
    using assms(1,3) by (auto simp: slices_row_label)
  then have "slices_row s2 (slices_row sp r) = slices_row sp r" by (rule slices_row_outside)
  ultimately show ?thesis by (simp add: slices_row_append)
qed

lemma filter_split_count:
  "list_all (\<lambda>x. M x \<longrightarrow> Own x \<or> Ch x) xs \<Longrightarrow>
   length (filter (\<lambda>x. M x \<and> Own x) xs) + length (filter (\<lambda>x. M x \<and> \<not> Own x \<and> Ch x) xs)
     = length (filter M xs)"
  by (induction xs) auto

lemma fidc_mask_slices_row: "fidc_mask fidc_name (slices_row slices r) = fidc_mask fidc_name r"
  by (simp add: fidc_mask_def slices_row_nome_fundo)

lemma disjoint_masks_avoid:
  fixes df :: "'a dataframe"
  assumes dst: "distinct (map label df)" and perm: "shuffle_permutes R"
    and disj: "list_all (\<lambda>r. \<not> (fidc_mask other r \<and> fidc_mask fidc_name r)) df"
  shows "set (concat (map snd (parent_slices R other other_fics df)))
           \<inter> label ` set (filter (fidc_mask fidc_name) df) = {}"
proof -
  have sub: "set (concat (map snd (parent_slices R other other_fics df)))
               \<subseteq> label ` set (filter (fidc_mask other) df)"
    using dst perm by (rule parent_slices_distinct)
  have inj: "inj_on label (set df)" using dst by (simp add: distinct_map)
  have "label ` set (filter (fidc_mask other) df) \<inter> label ` set (filter (fidc_mask fidc_name) df) = {}"
  proof (rule ccontr)
    assume "\<not> ?thesis"
    then obtain r1 r2 where r1: "r1 \<in> set df" "fidc_mask other r1"
      and r2: "r2 \<in> set df" "fidc_mask fidc_name r2" and eq: "label r1 = label r2"
      by auto
    from inj r1(1) r2(1) eq have "r1 = r2" by (auto dest: inj_onD)
    with r1 r2 disj show False by (auto simp: list_all_iff)
  qed
  with sub show ?thesis by blast
qed

text \<open>
  Two parents whose masks select the same rows, each with one child: whatever the
  shuffle, as long as it permutes, both steps hand out the same labels, the second
  child's name replaces the first's, and for the first parent the rows that keep their
  own name and the rows that carry its child's name are fewer than the rows its mask
  selects.
\<close>

lemma single_child_slice:
  assumes p: "shuffle_permutes R" and c: "fic \<noteq> ''-''"
    and n: "2 \<le> length (filter (fidc_mask fidc_name) df)"
  shows "parent_slices R fidc_name [fic] df
           = [(fic, drop (keep_original_count (length (filter (fidc_mask fidc_name) df)))
                      (fst (shuffle R (seed R 42) (map label (filter (fidc_mask fidc_name) df)))))]"
    and "drop (keep_original_count (length (filter (fidc_mask fidc_name) df)))
           (fst (shuffle R (seed R 42) (map label (filter (fidc_mask fidc_name) df)))) \<noteq> []"
proof -
  let ?rows = "filter (fidc_mask fidc_name) df"
  let ?sh = "fst (shuffle R (seed R 42) (map label ?rows))"
  have "mset ?sh = mset (map label ?rows)" using p by (simp add: shuffle_permutes_def)
  then have "length ?sh = length (map label ?rows)" by (rule mset_eq_length)
  then have len: "length ?sh = length ?rows" by simp
  have k: "keep_original_count (length ?rows) < length ?rows"
    using n by (simp add: keep_original_count_def)
  show "drop (keep_original_count (length ?rows)) ?sh \<noteq> []" using k len by simp
  show "parent_slices R fidc_name [fic] df = [(fic, drop (keep_original_count (length ?rows)) ?sh)]"
  proof -
    have nonempty: "?rows \<noteq> []" using n by auto
    show ?thesis using c k len nonempty by (simp add: parent_slices_def Let_def)
  qed
qed

lemma overlapping_parents_lose_rows:
  fixes df :: "'a dataframe"
  assumes dst: "distinct (map label df)" and perm: "shuffle_permutes R"
    and same: "filter (fidc_mask first) df = filter (fidc_mask second) df"
    and n: "2 \<le> length (filter (fidc_mask first) df)"
    and c1: "fic1 \<noteq> ''-''" and c2: "fic2 \<noteq> ''-''" and ne: "fic1 \<noteq> fic2"
    and fresh: "list_all (\<lambda>r. nome_fundo r \<noteq> fic2) df"
  shows "let out = fst (categorize_funds R g [(first, [fic1]), (second, [fic2])] df)
         in length (filter (\<lambda>r. fidc_mask first r \<and> nmcategorizado r = nome_fundo r) out)
              + length (filter (\<lambda>r. fidc_mask first r \<and> nmcategorizado r \<noteq> nome_fundo r
                                   \<and> nmcategorizado r \<in> set [fic1]) out)
            < length (filter (fidc_mask first) df)"
proof -
  let ?A = "drop (keep_original_count (length (filter (fidc_mask first) df)))
              (fst (shuffle R (seed R 42) (map label (filter (fidc_mask first) df))))"
  let ?f = "\<lambda>r. if label r \<in> set ?A
                 then r\<lparr>nmcategorizado := fic2, TpFundo := determine_fic_type fic2\<rparr>
                 else r\<lparr>nmcategorizado := nome_fundo r\<rparr>"
  have s1: "parent_slices R first [fic1] df = [(fic1, ?A)]" and A: "?A \<noteq> []"
    using perm c1 n by (rule single_child_slice)+
  have s2: "parent_slices R second [fic2] df = [(fic2, ?A)]"
    using single_child_slice(1) [OF perm c2, of second df] n unfolding same by simp
  have out: "fst (categorize_funds R g [(first, [fic1]), (second, [fic2])] df) = map ?f df"
    by (simp add: categorize_funds_slices engine_slices_def s1 s2 apply_slices_map
          slices_row_def assign_row_def)
  have dA: "distinct (concat (map snd (parent_slices R first [fic1] df)))"
    and subA: "set (concat (map snd (parent_slices R first [fic1] df)))
                 \<subseteq> label ` set (filter (fidc_mask first) df)"
    using dst perm by (rule parent_slices_distinct)+
  have mask: "fidc_mask first (?f r) = fidc_mask first r" for r :: "'a row_scheme"
    by (simp add: fidc_mask_def)
  have own: "filter (\<lambda>r. fidc_mask first r \<and> nmcategorizado r = nome_fundo r) (map ?f df)
               = map ?f (filter (\<lambda>r. fidc_mask first r \<and> label r \<notin> set ?A) df)"
    unfolding filter_map comp_def
    using fresh by (intro arg_cong [where f = "map ?f"] filter_cong) (auto simp: list_all_iff fidc_mask_def)
  have child: "filter (\<lambda>r. fidc_mask first r \<and> nmcategorizado r \<noteq> nome_fundo r
                             \<and> nmcategorizado r \<in> set [fic1]) (map ?f df) = []"
    using ne by (auto simp: filter_empty_conv)
  have "length (filter (\<lambda>r. fidc_mask first r \<and> label r \<notin> set ?A) df) + length ?A
          = length (filter (fidc_mask first) df)"
    using dst dA subA unfolding s1 by (intro retained_count) simp_all
  moreover have "0 < length ?A" using A by simp
  ultimately show ?thesis unfolding Let_def out own child by simp
qed

text \<open>
  Claim C2, as the code has it. The claim counts, for every parent of the mapping, the
  rows that stay with the parent and the rows that go to its children once the whole
  loop of \<open>categorize_funds\<close> has run. The loop selects a parent's rows by the column
  \<open>nome_fundo\<close>, which no step changes, so a row whose name matches two parents is
  handed out twice and the later assignment overwrites the earlier one (the example
  that closes this section): for the earlier parent the two counts then add up to less
  than the number of rows its mask selects.

  What holds at the end of the loop, on a DataFrame with distinct index labels and with
  a shuffle that permutes, is the conservation for every parent none of whose rows is
  in a slice of another parent of the mapping (by \<open>disjoint_masks_avoid\<close> that is the
  case when no other parent's name matches a row that this parent's name matches). For
  such a parent, wherever it stands in the mapping: the DataFrame keeps its rows (same
  labels and same fund names, in the same order); the rows its mask selects that still
  carry their own name, and those that carry another name, the name of one of its
  children, add up to exactly the number of rows the mask selects in the input; no label
  is in two of its slices; every row of a slice carries the name and the type of that
  slice's child; every row it keeps carries its own name; and the rows it keeps and the
  rows of all its slices add up to the same number.
\<close>

theorem engine_conserves_rows_of_parent:
  fixes df :: "'a dataframe"
  assumes dst: "distinct (map label df)" and perm: "shuffle_permutes R"
    and others: "list_all (\<lambda>(other, other_fics).
           set (concat (map snd (parent_slices R other other_fics df)))
             \<inter> label ` set (filter (fidc_mask fidc_name) df) = {}) (pre @ post)"
  shows "let out = fst (categorize_funds R g (pre @ (fidc_name, fics_list) # post) df);
             slices = parent_slices R fidc_name fics_list df
         in map label out = map label df \<and> map nome_fundo out = map nome_fundo df
            \<and> length (filter (\<lambda>r. fidc_mask fidc_name r \<and> nmcategorizado r = nome_fundo r) out)
                + length (filter (\<lambda>r. fidc_mask fidc_name r \<and> nmcategorizado r \<noteq> nome_fundo r
                                     \<and> nmcategorizado r \<in> set fics_list) out)
              = length (filter (fidc_mask fidc_name) df)
            \<and> distinct (concat (map snd slices))
            \<and> list_all (\<lambda>(fic, fic_indices).
                 list_all (\<lambda>r. nmcategorizado r = fic \<and> TpFundo r = determine_fic_type fic)
                   (assigned_rows fic_indices out)) slices
            \<and> list_all (\<lambda>r. nmcategorizado r = nome_fundo r) (retained_rows fidc_name slices out)
            \<and> length (retained_rows fidc_name slices out)
                + (\<Sum>(fic, fic_indices)\<leftarrow>slices. length (assigned_rows fic_indices out))
              = length (filter (fidc_mask fidc_name) df)"
proof -
  let ?start = "map (\<lambda>r. r\<lparr>nmcategorizado := nome_fundo r\<rparr>) df"
  let ?L = "label ` set (filter (fidc_mask fidc_name) df)"
  let ?s1 = "engine_slices R pre df"
  let ?sp = "parent_slices R fidc_name fics_list df"
  let ?s2 = "engine_slices R post df"
  let ?all = "?s1 @ ?sp @ ?s2"
  let ?A = "concat (map snd ?sp)"
  let ?out = "map (slices_row ?all) ?start"
  have out: "fst (categorize_funds R g (pre @ (fidc_name, fics_list) # post) df) = ?out"
    by (simp only: categorize_funds_slices engine_slices_append apply_slices_map)
  have lab: "map label ?out = map label df" by (simp add: slices_row_label comp_def)
  have nom: "map nome_fundo ?out = map nome_fundo df" by (simp add: slices_row_nome_fundo comp_def)
  have dA: "distinct ?A" and subA: "set ?A \<subseteq> ?L"
    using dst perm by (rule parent_slices_distinct)+
  from others have o1: "list_all (\<lambda>(other, other_fics).
           set (concat (map snd (parent_slices R other other_fics df))) \<inter> ?L = {}) pre"
    and o2: "list_all (\<lambda>(other, other_fics).
           set (concat (map snd (parent_slices R other other_fics df))) \<inter> ?L = {}) post"
    by simp_all
  have a1: "set (concat (map snd ?s1)) \<inter> ?L = {}" using o1 by (rule others_avoid)
  have a2: "set (concat (map snd ?s2)) \<inter> ?L = {}" using o2 by (rule others_avoid)
  have inj: "inj_on label (set df)" using dst by (simp add: distinct_map)
  \<comment> \<open>every row of the result comes from a row of the input\<close>
  have origin: "\<exists>r \<in> set df. r' = slices_row ?all (r\<lparr>nmcategorizado := nome_fundo r\<rparr>)"
    if "r' \<in> set ?out" for r'
    using that by auto
  \<comment> \<open>a row that the parent's mask selects is touched by the parent's own slices only\<close>
  have own: "slices_row ?all (r\<lparr>nmcategorizado := nome_fundo r\<rparr>)
               = slices_row ?sp (r\<lparr>nmcategorizado := nome_fundo r\<rparr>)"
    if "r \<in> set df" and "fidc_mask fidc_name r" for r
  proof (rule own_parent_row [OF _ a1 a2])
    show "label (r\<lparr>nmcategorizado := nome_fundo r\<rparr>) \<in> ?L" using that by auto
  qed
  have masked: "fidc_mask fidc_name r" if "r \<in> set df" and "label r \<in> set ?A" for r
  proof -
    from that(2) subA obtain r2 where "r2 \<in> set df" "fidc_mask fidc_name r2" "label r2 = label r"
      by auto
    with that(1) inj have "r2 = r" by (auto dest: inj_onD)
    with \<open>fidc_mask fidc_name r2\<close> show ?thesis by simp
  qed
  have assigned: "nmcategorizado r' = fic \<and> TpFundo r' = determine_fic_type fic"
    if "r' \<in> set ?out" and "(fic, idxs) \<in> set ?sp" and "label r' \<in> set idxs" for r' fic idxs
  proof -
    from origin [OF that(1)] obtain r where r: "r \<in> set df"
      and r': "r' = slices_row ?all (r\<lparr>nmcategorizado := nome_fundo r\<rparr>)" by blast
    have li: "label r \<in> set idxs" using that(3) r' by (simp add: slices_row_label)
    then have "label r \<in> set ?A" using that(2) by force
    with r have "fidc_mask fidc_name r" by (rule masked)
    with r have "r' = slices_row ?sp (r\<lparr>nmcategorizado := nome_fundo r\<rparr>)"
      unfolding r' by (rule own)
    also have "\<dots> = (r\<lparr>nmcategorizado := nome_fundo r\<rparr>)
                        \<lparr>nmcategorizado := fic, TpFundo := determine_fic_type fic\<rparr>"
      using dA that(2) li by (intro slices_row_inside) auto
    finally show ?thesis by simp
  qed
  have kept: "nmcategorizado r' = nome_fundo r'"
    if "r' \<in> set ?out" and "fidc_mask fidc_name r'" and "label r' \<notin> set ?A" for r'
  proof -
    from origin [OF that(1)] obtain r where r: "r \<in> set df"
      and r': "r' = slices_row ?all (r\<lparr>nmcategorizado := nome_fundo r\<rparr>)" by blast
    have "fidc_mask fidc_name r"
      using that(2) unfolding r' fidc_mask_slices_row by (simp add: fidc_mask_def)
    with r have "r' = slices_row ?sp (r\<lparr>nmcategorizado := nome_fundo r\<rparr>)"
      unfolding r' by (rule own)
    moreover have "label (r\<lparr>nmcategorizado := nome_fundo r\<rparr>) \<notin> set ?A"
      using that(3) r' by (simp add: slices_row_label)
    then have "slices_row ?sp (r\<lparr>nmcategorizado := nome_fundo r\<rparr>)
                 = r\<lparr>nmcategorizado := nome_fundo r\<rparr>"
      by (rule slices_row_outside)
    ultimately show ?thesis by simp
  qed
  have own_or_child: "list_all (\<lambda>r. fidc_mask fidc_name r \<longrightarrow>
                        nmcategorizado r = nome_fundo r \<or> nmcategorizado r \<in> set fics_list) ?out"
    unfolding list_all_iff
  proof (intro ballI impI)
    fix r' assume in_out: "r' \<in> set ?out" and m: "fidc_mask fidc_name r'"
    show "nmcategorizado r' = nome_fundo r' \<or> nmcategorizado r' \<in> set fics_list"
    proof (cases "label r' \<in> set ?A")
      case True
      then obtain fic idxs where mem: "(fic, idxs) \<in> set ?sp" and "label r' \<in> set idxs" by auto
      with in_out have "nmcategorizado r' = fic" using assigned by blast
      moreover from mem have "fic \<in> set fics_list" by (rule parent_slices_names)
      ultimately show ?thesis by simp
    next
      case False
      with in_out m have "nmcategorizado r' = nome_fundo r'" by (rule kept)
      then show ?thesis by simp
    qed
  qed
  have total: "length (filter (fidc_mask fidc_name) ?out) = length (filter (fidc_mask fidc_name) df)"
    unfolding fidc_mask_def
    using filter_length_cong [OF lab nom, of "\<lambda>l n. str_in (normalize_string fidc_name) (normalize_string n)
                    \<or> str_in (normalize_string n) (normalize_string fidc_name)"] .
  have by_name: "length (filter (\<lambda>r. fidc_mask fidc_name r \<and> nmcategorizado r = nome_fundo r) ?out)
                + length (filter (\<lambda>r. fidc_mask fidc_name r \<and> nmcategorizado r \<noteq> nome_fundo r
                                     \<and> nmcategorizado r \<in> set fics_list) ?out)
              = length (filter (fidc_mask fidc_name) df)"
    using filter_split_count [OF own_or_child] total by simp
  have named: "list_all (\<lambda>(fic, fic_indices).
                 list_all (\<lambda>r. nmcategorizado r = fic \<and> TpFundo r = determine_fic_type fic)
                   (assigned_rows fic_indices ?out)) ?sp"
    unfolding list_all_iff assigned_rows_def using assigned by fastforce
  have own_name: "list_all (\<lambda>r. nmcategorizado r = nome_fundo r) (retained_rows fidc_name ?sp ?out)"
    unfolding list_all_iff retained_rows_def using kept by fastforce
  have "length (retained_rows fidc_name ?sp ?out)
          = length (filter (\<lambda>r. fidc_mask fidc_name r \<and> label r \<notin> set ?A) df)"
    unfolding retained_rows_def fidc_mask_def
    using filter_length_cong [OF lab nom, of "\<lambda>l n. (str_in (normalize_string fidc_name) (normalize_string n)
                    \<or> str_in (normalize_string n) (normalize_string fidc_name)) \<and> l \<notin> set ?A"] .
  moreover have "length (filter (\<lambda>r. fidc_mask fidc_name r \<and> label r \<notin> set ?A) df) + length ?A
                   = length (filter (fidc_mask fidc_name) df)"
    using dst dA subA by (rule retained_count)
  moreover have "(\<Sum>(fic, fic_indices)\<leftarrow>?sp. length (assigned_rows fic_indices ?out)) = length ?A"
    using dst lab dA subA by (intro slices_sum_count) auto
  ultimately have by_label: "length (retained_rows fidc_name ?sp ?out)
                + (\<Sum>(fic, fic_indices)\<leftarrow>?sp. length (assigned_rows fic_indices ?out))
              = length (filter (fidc_mask fidc_name) df)"
    by simp
  show ?thesis
    unfolding Let_def out using lab nom by_name dA named own_name by_label by blast
qed

text \<open>
  Four rows of \<open>LION FIDC\<close> with two children, after a parent \<open>TIGER FIDC\<close> with two
  rows and one child, with the reversing shuffle: \<open>TIGER FIDC\<close> hands out the row
  labelled 4 only, two rows of \<open>LION FIDC\<close> stay, and each of its children receives one.
\<close>

theorem engine_conserves_rows_of_parent_witness:
  "distinct (map label
          [\<lparr>label = 0, nome_fundo = ''LION FIDC'', TpFundo = ''FIDC'', nmcategorizado = ''''\<rparr>,
           \<lparr>label = 1, nome_fundo = ''LION FIDC'', TpFundo = ''FIDC'', nmcategorizado = ''''\<rparr>,
           \<lparr>label = 2, nome_fundo = ''LION FIDC'', TpFundo = ''FIDC'', nmcategorizado = ''''\<rparr>,
           \<lparr>label = 3, nome_fundo = ''LION FIDC'', TpFundo = ''FIDC'', nmcategorizado = ''''\<rparr>,
           \<lparr>label = 4, nome_fundo = ''TIGER FIDC'', TpFundo = ''FIDC'', nmcategorizado = ''''\<rparr>,
           \<lparr>label = 5, nome_fundo = ''TIGER FIDC'', TpFundo = ''FIDC'', nmcategorizado = ''''\<rparr>])
   \<and> shuffle_permutes \<lparr>seed = (\<lambda>n. n), shuffle = (\<lambda>g xs. (rev xs, g + (1::int)))\<rparr>
   \<and> list_all (\<lambda>(other, other_fics).
        set (concat (map snd (parent_slices \<lparr>seed = (\<lambda>n. n), shuffle = (\<lambda>g xs. (rev xs, g + (1::int)))\<rparr> other other_fics
          [\<lparr>label = 0, nome_fundo = ''LION FIDC'', TpFundo = ''FIDC'', nmcategorizado = ''''\<rparr>,
           \<lparr>label = 1, nome_fundo = ''LION FIDC'', TpFundo = ''FIDC'', nmcategorizado = ''''\<rparr>,
           \<lparr>label = 2, nome_fundo = ''LION FIDC'', TpFundo = ''FIDC'', nmcategorizado = ''''\<rparr>,
           \<lparr>label = 3, nome_fundo = ''LION FIDC'', TpFundo = ''FIDC'', nmcategorizado = ''''\<rparr>,
           \<lparr>label = 4, nome_fundo = ''TIGER FIDC'', TpFundo = ''FIDC'', nmcategorizado = ''''\<rparr>,
           \<lparr>label = 5, nome_fundo = ''TIGER FIDC'', TpFundo = ''FIDC'', nmcategorizado = ''''\<rparr>])))
          \<inter> label ` set (filter (fidc_mask ''LION FIDC'')
          [\<lparr>label = 0, nome_fundo = ''LION FIDC'', TpFundo = ''FIDC'', nmcategorizado = ''''\<rparr>,
           \<lparr>label = 1, nome_fundo = ''LION FIDC'', TpFundo = ''FIDC'', nmcategorizado = ''''\<rparr>,
           \<lparr>label = 2, nome_fundo = ''LION FIDC'', TpFundo = ''FIDC'', nmcategorizado = ''''\<rparr>,
           \<lparr>label = 3, nome_fundo = ''LION FIDC'', TpFundo = ''FIDC'', nmcategorizado = ''''\<rparr>,
           \<lparr>label = 4, nome_fundo = ''TIGER FIDC'', TpFundo = ''FIDC'', nmcategorizado = ''''\<rparr>,
           \<lparr>label = 5, nome_fundo = ''TIGER FIDC'', TpFundo = ''FIDC'', nmcategorizado = ''''\<rparr>]) = {})
        ([(''TIGER FIDC'', [''TIGER FIC''])] @ [])
   \<and> map nmcategorizado (fst (categorize_funds \<lparr>seed = (\<lambda>n. n), shuffle = (\<lambda>g xs. (rev xs, g + (1::int)))\<rparr> 0
          ([(''TIGER FIDC'', [''TIGER FIC''])] @ (''LION FIDC'', [''LION FIC A'', ''LION FIC B'']) # [])
          [\<lparr>label = 0, nome_fundo = ''LION FIDC'', TpFundo = ''FIDC'', nmcategorizado = ''''\<rparr>,
           \<lparr>label = 1, nome_fundo = ''LION FIDC'', TpFundo = ''FIDC'', nmcategorizado = ''''\<rparr>,
           \<lparr>label = 2, nome_fundo = ''LION FIDC'', TpFundo = ''FIDC'', nmcategorizado = ''''\<rparr>,
           \<lparr>label = 3, nome_fundo = ''LION FIDC'', TpFundo = ''FIDC'', nmcategorizado = ''''\<rparr>,
           \<lparr>label = 4, nome_fundo = ''TIGER FIDC'', TpFundo = ''FIDC'', nmcategorizado = ''''\<rparr>,
           \<lparr>label = 5, nome_fundo = ''TIGER FIDC'', TpFundo = ''FIDC'', nmcategorizado = ''''\<rparr>]))
        = [''LION FIC B'', ''LION FIC A'', ''LION FIDC'', ''LION FIDC'', ''TIGER FIC'', ''TIGER FIDC'']
   \<and> (let out = fst (categorize_funds \<lparr>seed = (\<lambda>n. n), shuffle = (\<lambda>g xs. (rev xs, g + (1::int)))\<rparr> 0
          ([(''TIGER FIDC'', [''TIGER FIC''])] @ (''LION FIDC'', [''LION FIC A'', ''LION FIC B'']) # [])
          [\<lparr>label = 0, nome_fundo = ''LION FIDC'', TpFundo = ''FIDC'', nmcategorizado = ''''\<rparr>,
           \<lparr>label = 1, nome_fundo = ''LION FIDC'', TpFundo = ''FIDC'', nmcategorizado = ''''\<rparr>,
           \<lparr>label = 2, nome_fundo = ''LION FIDC'', TpFundo = ''FIDC'', nmcategorizado = ''''\<rparr>,
           \<lparr>label = 3, nome_fundo = ''LION FIDC'', TpFundo = ''FIDC'', nmcategorizado = ''''\<rparr>,
           \<lparr>label = 4, nome_fundo = ''TIGER FIDC'', TpFundo = ''FIDC'', nmcategorizado = ''''\<rparr>,
           \<lparr>label = 5, nome_fundo = ''TIGER FIDC'', TpFundo = ''FIDC'', nmcategorizado = ''''\<rparr>]);
            slices = parent_slices \<lparr>seed = (\<lambda>n. n), shuffle = (\<lambda>g xs. (rev xs, g + (1::int)))\<rparr> ''LION FIDC'' [''LION FIC A'', ''LION FIC B'']
          [\<lparr>label = 0, nome_fundo = ''LION FIDC'', TpFundo = ''FIDC'', nmcategorizado = ''''\<rparr>,
           \<lparr>label = 1, nome_fundo = ''LION FIDC'', TpFundo = ''FIDC'', nmcategorizado = ''''\<rparr>,
           \<lparr>label = 2, nome_fundo = ''LION FIDC'', TpFundo = ''FIDC'', nmcategorizado = ''''\<rparr>,
           \<lparr>label = 3, nome_fundo = ''LION FIDC'', TpFundo = ''FIDC'', nmcategorizado = ''''\<rparr>,
           \<lparr>label = 4, nome_fundo = ''TIGER FIDC'', TpFundo = ''FIDC'', nmcategorizado = ''''\<rparr>,
           \<lparr>label = 5, nome_fundo = ''TIGER FIDC'', TpFundo = ''FIDC'', nmcategorizado = ''''\<rparr>]
        in map label out = map label
          [\<lparr>label = 0, nome_fundo = ''LION FIDC'', TpFundo = ''FIDC'', nmcategorizado = ''''\<rparr>,
           \<lparr>label = 1, nome_fundo = ''LION FIDC'', TpFundo = ''FIDC'', nmcategorizado = ''''\<rparr>,
           \<lparr>label = 2, nome_fundo = ''LION FIDC'', TpFundo = ''FIDC'', nmcategorizado = ''''\<rparr>,
           \<lparr>label = 3, nome_fundo = ''LION FIDC'', TpFundo = ''FIDC'', nmcategorizado = ''''\<rparr>,
           \<lparr>label = 4, nome_fundo = ''TIGER FIDC'', TpFundo = ''FIDC'', nmcategorizado = ''''\<rparr>,
           \<lparr>label = 5, nome_fundo = ''TIGER FIDC'', TpFundo = ''FIDC'', nmcategorizado = ''''\<rparr>]
          \<and> map nome_fundo out = map nome_fundo
          [\<lparr>label = 0, nome_fundo = ''LION FIDC'', TpFundo = ''FIDC'', nmcategorizado = ''''\<rparr>,
           \<lparr>label = 1, nome_fundo = ''LION FIDC'', TpFundo = ''FIDC'', nmcategorizado = ''''\<rparr>,
           \<lparr>label = 2, nome_fundo = ''LION FIDC'', TpFundo = ''FIDC'', nmcategorizado = ''''\<rparr>,
           \<lparr>label = 3, nome_fundo = ''LION FIDC'', TpFundo = ''FIDC'', nmcategorizado = ''''\<rparr>,
           \<lparr>label = 4, nome_fundo = ''TIGER FIDC'', TpFundo = ''FIDC'', nmcategorizado = ''''\<rparr>,
           \<lparr>label = 5, nome_fundo = ''TIGER FIDC'', TpFundo = ''FIDC'', nmcategorizado = ''''\<rparr>]
          \<and> length (filter (\<lambda>r. fidc_mask ''LION FIDC'' r \<and> nmcategorizado r = nome_fundo r) out)
                + length (filter (\<lambda>r. fidc_mask ''LION FIDC'' r \<and> nmcategorizado r \<noteq> nome_fundo r
                                     \<and> nmcategorizado r \<in> set [''LION FIC A'', ''LION FIC B'']) out)
              = length (filter (fidc_mask ''LION FIDC'')
          [\<lparr>label = 0, nome_fundo = ''LION FIDC'', TpFundo = ''FIDC'', nmcategorizado = ''''\<rparr>,
           \<lparr>label = 1, nome_fundo = ''LION FIDC'', TpFundo = ''FIDC'', nmcategorizado = ''''\<rparr>,
           \<lparr>label = 2, nome_fundo = ''LION FIDC'', TpFundo = ''FIDC'', nmcategorizado = ''''\<rparr>,
           \<lparr>label = 3, nome_fundo = ''LION FIDC'', TpFundo = ''FIDC'', nmcategorizado = ''''\<rparr>,
           \<lparr>label = 4, nome_fundo = ''TIGER FIDC'', TpFundo = ''FIDC'', nmcategorizado = ''''\<rparr>,
           \<lparr>label = 5, nome_fundo = ''TIGER FIDC'', TpFundo = ''FIDC'', nmcategorizado = ''''\<rparr>])
          \<and> distinct (concat (map snd slices))
          \<and> list_all (\<lambda>(fic, fic_indices).
               list_all (\<lambda>r. nmcategorizado r = fic \<and> TpFundo r = determine_fic_type fic)
                 (assigned_rows fic_indices out)) slices
          \<and> list_all (\<lambda>r. nmcategorizado r = nome_fundo r) (retained_rows ''LION FIDC'' slices out)
          \<and> length (retained_rows ''LION FIDC'' slices out)
                + (\<Sum>(fic, fic_indices)\<leftarrow>slices. length (assigned_rows fic_indices out))
              = length (filter (fidc_mask ''LION FIDC'')
          [\<lparr>label = 0, nome_fundo = ''LION FIDC'', TpFundo = ''FIDC'', nmcategorizado = ''''\<rparr>,
           \<lparr>label = 1, nome_fundo = ''LION FIDC'', TpFundo = ''FIDC'', nmcategorizado = ''''\<rparr>,
           \<lparr>label = 2, nome_fundo = ''LION FIDC'', TpFundo = ''FIDC'', nmcategorizado = ''''\<rparr>,
           \<lparr>label = 3, nome_fundo = ''LION FIDC'', TpFundo = ''FIDC'', nmcategorizado = ''''\<rparr>,
           \<lparr>label = 4, nome_fundo = ''TIGER FIDC'', TpFundo = ''FIDC'', nmcategorizado = ''''\<rparr>,
           \<lparr>label = 5, nome_fundo = ''TIGER FIDC'', TpFundo = ''FIDC'', nmcategorizado = ''''\<rparr>]))"
proof -
  let ?R = "\<lparr>seed = (\<lambda>n. n :: int), shuffle = (\<lambda>g xs. (rev xs, g + 1))\<rparr>"
  let ?rows = "
          [\<lparr>label = 0, nome_fundo = ''LION FIDC'', TpFundo = ''FIDC'', nmcategorizado = ''''\<rparr>,
           \<lparr>label = 1, nome_fundo = ''LION FIDC'', TpFundo = ''FIDC'', nmcategorizado = ''''\<rparr>,
           \<lparr>label = 2, nome_fundo = ''LION FIDC'', TpFundo = ''FIDC'', nmcategorizado = ''''\<rparr>,
           \<lparr>label = 3, nome_fundo = ''LION FIDC'', TpFundo = ''FIDC'', nmcategorizado = ''''\<rparr>,
           \<lparr>label = 4, nome_fundo = ''TIGER FIDC'', TpFundo = ''FIDC'', nmcategorizado = ''''\<rparr>,
           \<lparr>label = 5, nome_fundo = ''TIGER FIDC'', TpFundo = ''FIDC'', nmcategorizado = ''''\<rparr>]"
  have d: "distinct (map label ?rows)" by simp
  have p: "shuffle_permutes ?R" by (simp add: shuffle_permutes_def)
  have tiger: "map snd (parent_slices ?R ''TIGER FIDC'' [''TIGER FIC''] ?rows) = [[4]]"
    by code_simp
  have lion: "map label (filter (fidc_mask ''LION FIDC'') ?rows) = [0, 1, 2, 3]"
    by code_simp
  have "set (concat (map snd (parent_slices ?R ''TIGER FIDC'' [''TIGER FIC''] ?rows)))
          \<inter> set (map label (filter (fidc_mask ''LION FIDC'') ?rows)) = {}"
    unfolding tiger lion by simp
  then have o: "list_all (\<lambda>(other, other_fics).
        set (concat (map snd (parent_slices ?R other other_fics ?rows)))
          \<inter> label ` set (filter (fidc_mask ''LION FIDC'') ?rows) = {})
        ([(''TIGER FIDC'', [''TIGER FIC''])] @ [])"
    by (simp only: set_map append_Nil2 list.pred_inject prod.case simp_thms)
  have n: "map nmcategorizado (fst (categorize_funds ?R 0
          ([(''TIGER FIDC'', [''TIGER FIC''])] @ (''LION FIDC'', [''LION FIC A'', ''LION FIC B'']) # [])
          ?rows))
        = [''LION FIC B'', ''LION FIC A'', ''LION FIDC'', ''LION FIDC'', ''TIGER FIC'', ''TIGER FIDC'']"
    by code_simp
  from d p o n
    engine_conserves_rows_of_parent
      [OF d p o, where fics_list = "[''LION FIC A'', ''LION FIC B'']" and g = 0]
  show ?thesis by (intro conjI)
qed

text \<open>
  Two parents whose names both match the same four rows: \<open>LION\<close> with the child
  \<open>A FIC\<close>, then \<open>LION FIDC\<close> with the child \<open>B FIC\<close>. Both steps seed the generator
  with 42 and shuffle the same four labels, so both hand out the same two rows, and the
  second step renames to \<open>B FIC\<close> the rows the first had named \<open>A FIC\<close>. At the end the
  mask of \<open>LION\<close> still selects four rows; two of them carry their own name and none
  carries the name of the child of \<open>LION\<close>: 2 + 0, not 4. The reversing shuffle stands
  for the generator here; \<open>overlapping_parents_lose_rows\<close> gives the shortfall for every
  shuffle that permutes.
\<close>

theorem overlapping_parents_counterexample:
  "let R = \<lparr>seed = (\<lambda>n. n), shuffle = (\<lambda>g xs. (rev xs, g + (1::int)))\<rparr>;
       df = [\<lparr>label = 0, nome_fundo = ''LION FIDC'', TpFundo = ''FIDC'', nmcategorizado = ''''\<rparr>,
             \<lparr>label = 1, nome_fundo = ''LION FIDC'', TpFundo = ''FIDC'', nmcategorizado = ''''\<rparr>,
             \<lparr>label = 2, nome_fundo = ''LION FIDC'', TpFundo = ''FIDC'', nmcategorizado = ''''\<rparr>,
             \<lparr>label = 3, nome_fundo = ''LION FIDC'', TpFundo = ''FIDC'', nmcategorizado = ''''\<rparr>];
       out = fst (categorize_funds R 0 [(''LION'', [''A FIC'']), (''LION FIDC'', [''B FIC''])] df)
   in map label (filter (fidc_mask ''LION'') df) = [0, 1, 2, 3]
      \<and> map label out = [0, 1, 2, 3]
      \<and> map nmcategorizado out = [''B FIC'', ''B FIC'', ''LION FIDC'', ''LION FIDC'']
      \<and> map label (filter (\<lambda>r. fidc_mask ''LION'' r \<and> nmcategorizado r = nome_fundo r) out) = [2, 3]
      \<and> filter (\<lambda>r. nmcategorizado r \<in> set [''A FIC'']) out = []"
  by code_simp

end
